theory Spec2Isabelle
  imports Complex_Main "HOL-Library.Word"
begin

section \<open>JavaScript numbers\<close>

text \<open>
  The script computes in JavaScript numbers, which are IEEE 754 binary64 values. A
  finite number is modelled by the real it denotes; every arithmetic result is rounded
  to the nearest representable value, ties to the even significand, and a result whose
  rounding reaches \<open>2 ^ 1024\<close> becomes an infinity. The two zeros are one value here:
  the script never divides by zero and none of its tests tells them apart.

  \<open>ulp_exp x\<close> is the exponent of the spacing of the representable values around
  \<open>x\<close>: the least \<open>e\<close> from \<open>- 1074\<close> (the subnormal spacing) with
  \<open>\<bar>x\<bar> < 2 ^ (e + 53)\<close>, at most 972. \<open>rnd\<close> rounds to that grid.
\<close>

fun find_exp :: "nat \<Rightarrow> int \<Rightarrow> real \<Rightarrow> int" where
  "find_exp 0 e a = e"
| "find_exp (Suc n) e a = (if a < 2 powi (e + 53) then e else find_exp n (e + 1) a)"

definition ulp_exp :: "real \<Rightarrow> int" where
  "ulp_exp x = find_exp 2046 (- 1074) \<bar>x\<bar>"

definition round_half_even :: "real \<Rightarrow> int" where
  "round_half_even y =
     (let f = \<lfloor>y\<rfloor>; r = y - of_int f
      in if r < 1 / 2 then f
         else if 1 / 2 < r then f + 1
         else if even f then f else f + 1)"

definition rnd :: "real \<Rightarrow> real" where
  "rnd x = of_int (round_half_even (x / 2 powi ulp_exp x)) * 2 powi ulp_exp x"

text \<open>
  The finite numbers are the values rounding produces below \<open>2 ^ 1024\<close>. \<open>val\<close>
  is the real a finite number denotes and \<open>dbl x\<close> the finite number nearest to
  \<open>x\<close>, which is what the JavaScript literal \<open>x\<close> denotes.
\<close>

definition round_to_double :: "real \<Rightarrow> real" where
  "round_to_double x = (if \<bar>rnd x\<bar> < 2 ^ 1024 then rnd x else 0)"

typedef double = "{y. \<exists>x. y = round_to_double x}"
  morphisms val Abs_double
  by blast

setup_lifting type_definition_double

lift_definition dbl :: "real \<Rightarrow> double" is round_to_double
  by blast

instantiation double :: equal
begin

definition equal_double :: "double \<Rightarrow> double \<Rightarrow> bool" where
  "equal_double a b = (val a = val b)"

instance
  by standard (simp add: equal_double_def val_inject)

end

text \<open>A number is finite, one of the two infinities, or NaN.\<close>

datatype number = Fin double | PInf | NInf | NaN

text \<open>The result of an operation whose exact value is \<open>x\<close>.\<close>

definition to_number :: "real \<Rightarrow> number" where
  "to_number x =
     (if \<bar>rnd x\<bar> < 2 ^ 1024 then Fin (dbl x)
      else if 0 < x then PInf else NInf)"

text \<open>A numeric literal of the script.\<close>

definition lit :: "real \<Rightarrow> number" where
  "lit x = Fin (dbl x)"

text \<open>Unary minus, \<open>+\<close>, \<open>-\<close>, \<open>*\<close>, \<open>/\<close> and \<open>Math.abs\<close>.\<close>

fun fneg :: "number \<Rightarrow> number" where
  "fneg (Fin a) = Fin (dbl (- val a))"
| "fneg PInf = NInf"
| "fneg NInf = PInf"
| "fneg NaN = NaN"

fun fadd :: "number \<Rightarrow> number \<Rightarrow> number" where
  "fadd (Fin a) (Fin b) = to_number (val a + val b)"
| "fadd NaN y = NaN"
| "fadd x NaN = NaN"
| "fadd PInf NInf = NaN"
| "fadd NInf PInf = NaN"
| "fadd PInf y = PInf"
| "fadd x PInf = PInf"
| "fadd NInf y = NInf"
| "fadd x NInf = NInf"

definition fsub :: "number \<Rightarrow> number \<Rightarrow> number" where
  "fsub x y = fadd x (fneg y)"

fun fmul :: "number \<Rightarrow> number \<Rightarrow> number" where
  "fmul (Fin a) (Fin b) = to_number (val a * val b)"
| "fmul NaN y = NaN"
| "fmul x NaN = NaN"
| "fmul PInf (Fin b) = (if val b = 0 then NaN else if 0 < val b then PInf else NInf)"
| "fmul NInf (Fin b) = (if val b = 0 then NaN else if 0 < val b then NInf else PInf)"
| "fmul (Fin a) PInf = (if val a = 0 then NaN else if 0 < val a then PInf else NInf)"
| "fmul (Fin a) NInf = (if val a = 0 then NaN else if 0 < val a then NInf else PInf)"
| "fmul PInf PInf = PInf"
| "fmul NInf NInf = PInf"
| "fmul PInf NInf = NInf"
| "fmul NInf PInf = NInf"

fun fdiv :: "number \<Rightarrow> number \<Rightarrow> number" where
  "fdiv (Fin a) (Fin b) =
     (if val b = 0
      then (if val a = 0 then NaN else if 0 < val a then PInf else NInf)
      else to_number (val a / val b))"
| "fdiv NaN y = NaN"
| "fdiv x NaN = NaN"
| "fdiv (Fin a) PInf = Fin (dbl 0)"
| "fdiv (Fin a) NInf = Fin (dbl 0)"
| "fdiv PInf (Fin b) = (if val b < 0 then NInf else PInf)"
| "fdiv NInf (Fin b) = (if val b < 0 then PInf else NInf)"
| "fdiv PInf PInf = NaN"
| "fdiv PInf NInf = NaN"
| "fdiv NInf PInf = NaN"
| "fdiv NInf NInf = NaN"

fun fabs :: "number \<Rightarrow> number" where
  "fabs (Fin a) = Fin (dbl \<bar>val a\<bar>)"
| "fabs PInf = PInf"
| "fabs NInf = PInf"
| "fabs NaN = NaN"

text \<open>The comparisons \<open><\<close>, \<open><=\<close>, \<open>>\<close>, \<open>>=\<close>: false whenever an operand is NaN.\<close>

fun js_lt :: "number \<Rightarrow> number \<Rightarrow> bool" where
  "js_lt (Fin a) (Fin b) = (val a < val b)"
| "js_lt NaN y = False"
| "js_lt x NaN = False"
| "js_lt PInf y = False"
| "js_lt x NInf = False"
| "js_lt NInf y = True"
| "js_lt x PInf = True"

fun js_le :: "number \<Rightarrow> number \<Rightarrow> bool" where
  "js_le (Fin a) (Fin b) = (val a \<le> val b)"
| "js_le NaN y = False"
| "js_le x NaN = False"
| "js_le NInf y = True"
| "js_le x PInf = True"
| "js_le PInf y = False"
| "js_le x NInf = False"

definition js_gt :: "number \<Rightarrow> number \<Rightarrow> bool" where
  "js_gt x y = js_lt y x"

definition js_ge :: "number \<Rightarrow> number \<Rightarrow> bool" where
  "js_ge x y = js_le y x"

section \<open>Values read from the device\<close>

text \<open>
  A value the device hands to the script: null, a number, or a value of any other type
  (undefined, string, boolean, object).
\<close>

datatype jsval = JNull | JNumber number | JOther

text \<open>\<open>function isNumber(x) { return typeof x === "number" && isFinite(x); }\<close>\<close>

fun isNumber :: "jsval \<Rightarrow> bool" where
  "isNumber (JNumber (Fin x)) = True"
| "isNumber (JNumber PInf) = False"
| "isNumber (JNumber NInf) = False"
| "isNumber (JNumber NaN) = False"
| "isNumber JNull = False"
| "isNumber JOther = False"

text \<open>
  A script variable that is either null or a finite number is a \<open>double option\<close>
  (\<open>None\<close> is null). \<open>js\<close> reads such a variable as a value, \<open>numval\<close> stores
  a value that has passed \<open>isNumber\<close> into such a variable, and \<open>toNumber\<close> is the
  coercion JavaScript applies to an operand of \<open>-\<close>: null counts as 0.
\<close>

fun js :: "double option \<Rightarrow> jsval" where
  "js None = JNull"
| "js (Some x) = JNumber (Fin x)"

fun numval :: "jsval \<Rightarrow> double option" where
  "numval (JNumber (Fin x)) = Some x"
| "numval (JNumber PInf) = None"
| "numval (JNumber NInf) = None"
| "numval (JNumber NaN) = None"
| "numval JNull = None"
| "numval JOther = None"

fun toNumber :: "double option \<Rightarrow> number" where
  "toNumber None = lit 0"
| "toNumber (Some x) = Fin x"

text \<open>
  \<open>Shelly.getUptimeMs()\<close> reports the uptime in milliseconds, an unsigned 64-bit count.
  The variables that keep an uptime hold that count, and \<open>ms\<close> is the number the
  script computes with.
\<close>

type_synonym uptime = "64 word"

definition ms :: "uptime \<Rightarrow> number" where
  "ms w = to_number (real (unat w))"

text \<open>
  \<open>clampMinMax(value, minValue, maxValue)\<close>: the two tests in the order of the source.
\<close>

definition clampMinMax :: "number \<Rightarrow> number \<Rightarrow> number \<Rightarrow> number" where
  "clampMinMax v minValue maxValue =
     (if js_lt v minValue then minValue
      else if js_gt v maxValue then maxValue
      else v)"

section \<open>Device components\<close>

text \<open>
  The status objects of the \<open>em\<close> and \<open>emdata\<close> components, with the fields the script
  reads; \<open>Shelly.getComponentStatus\<close> returns such an object or null (\<open>None\<close>).
  A virtual number component is reached through a handle; \<open>getStatus()\<close> of the handle
  returns its status object (field \<open>value\<close>, here \<open>st_value\<close>) or null.
\<close>

record em_status =
  total_act_power :: jsval

record emdata_status =
  total_act :: jsval
  total_act_ret :: jsval

record vstatus =
  st_value :: jsval

record vhandle =
  getStatus :: "vstatus option"

text \<open>
  \<open>handle.setValue(x)\<close> stores the number in the component; the handle's status reads
  it back afterwards. The script calls it only behind \<open>if (handle)\<close>.
\<close>

definition setValue :: "number \<Rightarrow> vhandle option \<Rightarrow> vhandle option" where
  "setValue x h =
     (case h of
        None \<Rightarrow> None
      | Some hdl \<Rightarrow> Some (hdl\<lparr>getStatus := Some \<lparr>st_value = JNumber x\<rparr>\<rparr>))"

definition NET_METERED_ENERGY_KEY :: string where
  "NET_METERED_ENERGY_KEY = ''number:200''"

definition NET_METERED_ENERGY_RET_KEY :: string where
  "NET_METERED_ENERGY_RET_KEY = ''number:201''"

definition ENERGY_EPSILON_WH :: number where
  "ENERGY_EPSILON_WH = lit 0.001"

section \<open>Runtime state\<close>

text \<open>The module-level variables of the script, one field each, with their initial values.\<close>

record state =
  net_metered_energy_handle :: "vhandle option"
  net_metered_energy_ret_handle :: "vhandle option"
  net_metered_energy_wh :: number
  net_metered_energy_ret_wh :: number
  delta_energy_integrate_wh :: number
  delta_energy_ret_integrate_wh :: number
  baseline_total_energy_wh :: "double option"
  baseline_total_energy_ret_wh :: "double option"
  last_seen_total_energy_wh :: "double option"
  last_seen_total_energy_ret_wh :: "double option"
  totals_changed_since_last_correction :: bool
  totals_last_change_uptime_ms :: uptime
  last_correction_uptime_ms :: uptime
  last_integration_uptime_ms :: "uptime option"
  current_total_energy_wh :: "double option"
  current_total_energy_ret_wh :: "double option"

definition init_state :: state where
  "init_state =
     \<lparr> net_metered_energy_handle = None,
       net_metered_energy_ret_handle = None,
       net_metered_energy_wh = lit 0,
       net_metered_energy_ret_wh = lit 0,
       delta_energy_integrate_wh = lit 0,
       delta_energy_ret_integrate_wh = lit 0,
       baseline_total_energy_wh = None,
       baseline_total_energy_ret_wh = None,
       last_seen_total_energy_wh = None,
       last_seen_total_energy_ret_wh = None,
       totals_changed_since_last_correction = False,
       totals_last_change_uptime_ms = 0,
       last_correction_uptime_ms = 0,
       last_integration_uptime_ms = None,
       current_total_energy_wh = None,
       current_total_energy_ret_wh = None \<rparr>"

section \<open>Shelly readings\<close>

text \<open>
  \<open>readTotalPowerW()\<close>: the argument is what \<open>Shelly.getComponentStatus("em", EM_ID)\<close>
  returned. The result is the power in watts or null.
\<close>

definition readTotalPowerW :: "em_status option \<Rightarrow> double option" where
  "readTotalPowerW em =
     (case em of
        None \<Rightarrow> None
      | Some e \<Rightarrow> if \<not> isNumber (total_act_power e) then None
                  else numval (total_act_power e))"

text \<open>
  \<open>readTotalsWh()\<close>: the argument is what \<open>Shelly.getComponentStatus("emdata", EMDATA_ID)\<close>
  returned. The result is the returned boolean and the state afterwards.
\<close>

definition readTotalsWh :: "emdata_status option \<Rightarrow> state \<Rightarrow> bool \<times> state" where
  "readTotalsWh emdata s =
     (case emdata of
        None \<Rightarrow> (False, s)
      | Some st \<Rightarrow>
          if \<not> isNumber (total_act st) \<or> \<not> isNumber (total_act_ret st) then (False, s)
          else (True, s\<lparr> current_total_energy_wh := numval (total_act st),
                          current_total_energy_ret_wh := numval (total_act_ret st) \<rparr>))"

section \<open>Integration and correction\<close>

text \<open>
  \<open>integratePower()\<close>: \<open>now\<close> is what \<open>getUptimeMs()\<close> returned, \<open>em\<close> the status of
  the \<open>em\<close> component at that moment. The anchor \<open>last_integration_uptime_ms\<close> is
  assigned before the power is read, as in the source. \<open>if (!isNumber(p)) return\<close> is
  the case \<open>None\<close> of the power read.
\<close>

definition integratePower :: "uptime \<Rightarrow> em_status option \<Rightarrow> state \<Rightarrow> state" where
  "integratePower now em s =
     (case last_integration_uptime_ms s of
        None \<Rightarrow> s\<lparr> last_integration_uptime_ms := Some now \<rparr>
      | Some prev \<Rightarrow>
          (let dt_ms = fsub (ms now) (ms prev) in
           if js_le dt_ms (lit 0) then s
           else
             (let s1 = s\<lparr> last_integration_uptime_ms := Some now \<rparr> in
              case readTotalPowerW em of
                None \<Rightarrow> s1
              | Some p \<Rightarrow>
                  (let wh = fmul (Fin p) (fdiv dt_ms (lit 3600000)) in
                   if js_ge wh (lit 0)
                   then s1\<lparr> delta_energy_integrate_wh :=
                              fadd (delta_energy_integrate_wh s1) wh \<rparr>
                   else s1\<lparr> delta_energy_ret_integrate_wh :=
                              fadd (delta_energy_ret_integrate_wh s1) (fneg wh) \<rparr>))))"

text \<open>
  \<open>startBaselineIfNeeded(t, r)\<close>: \<open>up1\<close> and \<open>up2\<close> are the results of its two calls of
  \<open>getUptimeMs()\<close>.
\<close>

definition startBaselineIfNeeded ::
  "double option \<Rightarrow> double option \<Rightarrow> uptime \<Rightarrow> uptime \<Rightarrow> state \<Rightarrow> state" where
  "startBaselineIfNeeded t r up1 up2 s =
     (if \<not> isNumber (js (baseline_total_energy_wh s))
         \<or> \<not> isNumber (js (baseline_total_energy_ret_wh s))
      then s\<lparr> baseline_total_energy_wh := t,
              baseline_total_energy_ret_wh := r,
              last_seen_total_energy_wh := t,
              last_seen_total_energy_ret_wh := r,
              totals_changed_since_last_correction := False,
              totals_last_change_uptime_ms := up1,
              last_correction_uptime_ms := up2,
              delta_energy_integrate_wh := lit 0,
              delta_energy_ret_integrate_wh := lit 0 \<rparr>
      else s)"

text \<open>\<open>updateTotalsChangeDetection(t, r)\<close>: \<open>up\<close> is the result of \<open>getUptimeMs()\<close>.\<close>

definition updateTotalsChangeDetection ::
  "double option \<Rightarrow> double option \<Rightarrow> uptime \<Rightarrow> state \<Rightarrow> state" where
  "updateTotalsChangeDetection t r up s =
     (if \<not> isNumber (js (last_seen_total_energy_wh s))
         \<or> \<not> isNumber (js (last_seen_total_energy_ret_wh s))
      then s\<lparr> last_seen_total_energy_wh := t,
              last_seen_total_energy_ret_wh := r \<rparr>
      else if t \<noteq> last_seen_total_energy_wh s \<or> r \<noteq> last_seen_total_energy_ret_wh s
      then s\<lparr> totals_changed_since_last_correction := True,
              totals_last_change_uptime_ms := up,
              last_seen_total_energy_wh := t,
              last_seen_total_energy_ret_wh := r \<rparr>
      else s)"

text \<open>
  The scale factor of \<open>applyCorrectionIfReady\<close>, from \<open>let k = 1.0\<close> to the clamp,
  statement by statement.
\<close>

definition correctionFactor :: "number \<Rightarrow> number \<Rightarrow> number" where
  "correctionFactor sum_total sum_integrated =
     (let k0 = lit 1;
          k3 = (if isNumber (JNumber sum_integrated)
                   \<and> js_gt (fabs sum_integrated) ENERGY_EPSILON_WH
                then (let k1 = fdiv sum_total sum_integrated;
                          k2 = (if \<not> isNumber (JNumber k1) then lit 1 else k1)
                      in if js_le k2 (lit 0.001) then lit 1 else k2)
                else k0)
      in clampMinMax k3 (lit 0.1) (lit 10))"

text \<open>\<open>applyCorrectionIfReady(t, r)\<close>: \<open>now\<close> is the result of \<open>getUptimeMs()\<close>.\<close>

definition applyCorrectionIfReady ::
  "double option \<Rightarrow> double option \<Rightarrow> uptime \<Rightarrow> state \<Rightarrow> state" where
  "applyCorrectionIfReady t r now s =
     (if \<not> totals_changed_since_last_correction s then s
      else if js_lt (fsub (ms now) (ms (totals_last_change_uptime_ms s))) (lit 5000) then s
      else
        (let dt_total = fsub (toNumber t) (toNumber (baseline_total_energy_wh s));
             dt_ret_total = fsub (toNumber r) (toNumber (baseline_total_energy_ret_wh s));
             sum_total = fsub dt_total dt_ret_total;
             sum_integrated =
               fsub (delta_energy_integrate_wh s) (delta_energy_ret_integrate_wh s);
             k = correctionFactor sum_total sum_integrated;
             dt_int = fmul (delta_energy_integrate_wh s) k;
             dt_ret_int = fmul (delta_energy_ret_integrate_wh s) k;
             net = fadd (net_metered_energy_wh s) dt_int;
             net_ret = fadd (net_metered_energy_ret_wh s) dt_ret_int
         in s\<lparr> net_metered_energy_wh := net,
                net_metered_energy_ret_wh := net_ret,
                net_metered_energy_handle := setValue net (net_metered_energy_handle s),
                net_metered_energy_ret_handle :=
                  setValue net_ret (net_metered_energy_ret_handle s),
                baseline_total_energy_wh := t,
                baseline_total_energy_ret_wh := r,
                delta_energy_integrate_wh := lit 0,
                delta_energy_ret_integrate_wh := lit 0,
                totals_changed_since_last_correction := False,
                last_correction_uptime_ms := now,
                last_integration_uptime_ms := Some now \<rparr>))"

section \<open>Timer ticks\<close>

text \<open>
  What the device shows during one run of \<open>totalsTick\<close>: the status of \<open>emdata\<close>
  and the results of the four calls of \<open>getUptimeMs()\<close> the tick can make, in call order.
\<close>

record totals_env =
  emdata :: "emdata_status option"
  up_baseline1 :: uptime
  up_baseline2 :: uptime
  up_detect :: uptime
  up_correct :: uptime

definition integrationTick :: "uptime \<Rightarrow> em_status option \<Rightarrow> state \<Rightarrow> state" where
  "integrationTick now em s = integratePower now em s"

definition totalsTick :: "totals_env \<Rightarrow> state \<Rightarrow> state" where
  "totalsTick e s =
     (case readTotalsWh (emdata e) s of
        (False, s0) \<Rightarrow> s0
      | (True, s0) \<Rightarrow>
          (let s1 = startBaselineIfNeeded (current_total_energy_wh s0)
                      (current_total_energy_ret_wh s0) (up_baseline1 e) (up_baseline2 e) s0;
               s2 = updateTotalsChangeDetection (current_total_energy_wh s1)
                      (current_total_energy_ret_wh s1) (up_detect e) s1
           in applyCorrectionIfReady (current_total_energy_wh s2)
                (current_total_energy_ret_wh s2) (up_correct e) s2))"

section \<open>Startup\<close>

text \<open>
  \<open>loadPersisted()\<close>: \<open>virt\<close> is \<open>Virtual.getHandle\<close>, from a component key to its
  handle or null. Where \<open>isNumber(s1.value)\<close> holds, \<open>toNumber (numval (st_value st))\<close>
  is that number.
\<close>

definition loadPersisted :: "(string \<Rightarrow> vhandle option) \<Rightarrow> state \<Rightarrow> state" where
  "loadPersisted virt s =
     (let h1 = virt NET_METERED_ENERGY_KEY;
          h2 = virt NET_METERED_ENERGY_RET_KEY;
          s1 = (case h1 of None \<Rightarrow> None | Some h \<Rightarrow> getStatus h);
          s2 = (case h2 of None \<Rightarrow> None | Some h \<Rightarrow> getStatus h)
      in s\<lparr> net_metered_energy_handle := h1,
             net_metered_energy_ret_handle := h2,
             net_metered_energy_wh :=
               (case s1 of
                  None \<Rightarrow> lit 0
                | Some st \<Rightarrow>
                    if isNumber (st_value st) then toNumber (numval (st_value st)) else lit 0),
             net_metered_energy_ret_wh :=
               (case s2 of
                  None \<Rightarrow> lit 0
                | Some st \<Rightarrow>
                    if isNumber (st_value st) then toNumber (numval (st_value st)) else lit 0) \<rparr>)"

text \<open>
  The innermost callback of \<open>start()\<close>, run on the initial variables once the virtual
  components exist: load the accumulators, take a baseline if the totals can be read,
  then the timers start.
\<close>

definition start :: "(string \<Rightarrow> vhandle option) \<Rightarrow> totals_env \<Rightarrow> state" where
  "start virt e =
     (let s0 = loadPersisted virt init_state in
      case readTotalsWh (emdata e) s0 of
        (False, s1) \<Rightarrow> s1
      | (True, s1) \<Rightarrow>
          startBaselineIfNeeded (current_total_energy_wh s1)
            (current_total_energy_ret_wh s1) (up_baseline1 e) (up_baseline2 e) s1)"

section \<open>Runs\<close>

text \<open>
  The two timers fire in some interleaving; each firing is an event carrying what the
  device shows at that moment.
\<close>

datatype event =
    Fast uptime "em_status option"
  | Slow totals_env

fun step :: "state \<Rightarrow> event \<Rightarrow> state" where
  "step s (Fast now em) = integrationTick now em s"
| "step s (Slow e) = totalsTick e s"

fun run :: "state \<Rightarrow> event list \<Rightarrow> state" where
  "run s [] = s"
| "run s (ev # evs) = run (step s ev) evs"

section \<open>Conditions named by the properties\<close>

text \<open>A number that is at least 0: finite and not negative, or plus infinity.\<close>

definition nonneg :: "number \<Rightarrow> bool" where
  "nonneg x = js_le (lit 0) x"

text \<open>
  The three ways in which a persisted accumulator cannot be loaded at startup: there is
  no handle, the handle has no status, or the stored value is not a finite number.
\<close>

definition cannot_load :: "vhandle option \<Rightarrow> bool" where
  "cannot_load h =
     (case h of
        None \<Rightarrow> True
      | Some hdl \<Rightarrow>
          (case getStatus hdl of
             None \<Rightarrow> True
           | Some st \<Rightarrow> \<not> isNumber (st_value st)))"

text \<open>
  The reference-counter read fails: the status of \<open>emdata\<close> is absent, or one of the
  two counters is not a finite number.
\<close>

definition read_fails :: "emdata_status option \<Rightarrow> bool" where
  "read_fails emd =
     (case emd of
        None \<Rightarrow> True
      | Some st \<Rightarrow> \<not> isNumber (total_act st) \<or> \<not> isNumber (total_act_ret st))"

text \<open>
  The power sample is absent: the status of \<open>em\<close> is absent, or its total active
  power is not a finite number.
\<close>

definition power_absent :: "em_status option \<Rightarrow> bool" where
  "power_absent em =
     (case em of
        None \<Rightarrow> True
      | Some e \<Rightarrow> \<not> isNumber (total_act_power e))"

text \<open>
  The elapsed time \<open>dt_ms\<close> the script computes between the uptimes \<open>prev\<close> and
  \<open>now\<close>.
\<close>

definition elapsed :: "uptime \<Rightarrow> uptime \<Rightarrow> number" where
  "elapsed prev now = fsub (ms now) (ms prev)"

text \<open>
  A state in which a change of the reference counters is waiting for its correction:
  the baseline is (5000, 200), the counters were last seen at (6000, 250) at uptime
  60000 ms, and the window holds 1000 Wh of import.
\<close>

definition demo_pending :: state where
  "demo_pending =
     init_state\<lparr> baseline_total_energy_wh := Some (dbl 5000),
                 baseline_total_energy_ret_wh := Some (dbl 200),
                 last_seen_total_energy_wh := Some (dbl 6000),
                 last_seen_total_energy_ret_wh := Some (dbl 250),
                 totals_changed_since_last_correction := True,
                 totals_last_change_uptime_ms := 60000,
                 delta_energy_integrate_wh := lit 1000,
                 delta_energy_ret_integrate_wh := lit 0,
                 last_integration_uptime_ms := Some 64500 \<rparr>"

text \<open>
  A state whose window holds a quarter of a watt-hour while the import counter stands at
  \<open>2 ^ 1023\<close>, so that the quotient of the correction overflows.
\<close>

definition demo_huge :: double where
  "demo_huge = dbl (2 ^ 1023)"

definition demo_quarter :: state where
  "demo_quarter =
     init_state\<lparr> totals_changed_since_last_correction := True,
                 delta_energy_integrate_wh := lit 0.25 \<rparr>"

text \<open>
  The invariants of a run: neither component of the integration window is negative, and
  each accumulator is a finite number or plus infinity.
\<close>

definition window_nonneg :: "state \<Rightarrow> bool" where
  "window_nonneg s =
     (nonneg (delta_energy_integrate_wh s) \<and> nonneg (delta_energy_ret_integrate_wh s))"

definition accumulators_defined :: "state \<Rightarrow> bool" where
  "accumulators_defined s =
     (js_lt NInf (net_metered_energy_wh s) \<and> js_lt NInf (net_metered_energy_ret_wh s))"

text \<open>
  A fast tick at uptime \<open>now\<close> on which the power sample is available and reads \<open>p\<close>
  watts.
\<close>

definition sample :: "uptime \<Rightarrow> double \<Rightarrow> event" where
  "sample now p = Fast now (Some \<lparr> total_act_power = JNumber (Fin p) \<rparr>)"

text \<open>
  Every tick of \<open>nows\<close> sees a positive elapsed time since the tick before, starting
  from the anchor \<open>t\<close>.
\<close>

fun increasing_from :: "uptime \<Rightarrow> uptime list \<Rightarrow> bool" where
  "increasing_from t [] = True"
| "increasing_from t (now # nows) = (js_gt (elapsed t now) (lit 0) \<and> increasing_from now nows)"

text \<open>
  The real a number denotes when it is finite, and the exact signed energy sum of the
  samples \<open>(now, p)\<close>: each power times the elapsed time the script computes since the
  tick before, in watt-hours.
\<close>

fun fin_val :: "number \<Rightarrow> real" where
  "fin_val (Fin d) = val d"
| "fin_val PInf = 0"
| "fin_val NInf = 0"
| "fin_val NaN = 0"

fun signed_energy :: "uptime \<Rightarrow> (uptime \<times> double) list \<Rightarrow> real" where
  "signed_energy t [] = 0"
| "signed_energy t ((now, p) # xs) =
     val p * fin_val (elapsed t now) / 3600000 + signed_energy now xs"

text \<open>
  The tolerance of the window against the exact signed sum. Every tick contributes the
  unit roundoff \<open>2\<^sup>-\<^sup>5\<^sup>3\<close> of binary64 times the sum \<open>W\<close> of the two window components at the
  end plus three times the absolute energy of the tick, and the underflow unit
  \<open>2\<^sup>-\<^sup>1\<^sup>0\<^sup>7\<^sup>5\<close> times \<open>2\<bar>p\<bar> + 1\<close>.
\<close>

definition unit_roundoff :: real where
  "unit_roundoff = 2 powi (- 53)"

definition underflow_unit :: real where
  "underflow_unit = 2 powi (- 1075)"

fun tolerance :: "real \<Rightarrow> uptime \<Rightarrow> (uptime \<times> double) list \<Rightarrow> real" where
  "tolerance W t [] = 0"
| "tolerance W t ((now, p) # xs) =
     unit_roundoff * (W + 3 * (\<bar>val p\<bar> * fin_val (elapsed t now) / 3600000))
       + underflow_unit * (2 * \<bar>val p\<bar> + 1)
       + tolerance W now xs"

text \<open>
  One hour at 1000 W in six ticks of ten minutes, and the state of a fresh script after
  its first tick at uptime 0.
\<close>

definition hour_in_six :: "(uptime \<times> double) list" where
  "hour_in_six =
     [(600000, dbl 1000), (1200000, dbl 1000), (1800000, dbl 1000),
      (2400000, dbl 1000), (3000000, dbl 1000), (3600000, dbl 1000)]"

definition demo_anchored :: state where
  "demo_anchored = run init_state [Fast 0 None]"

text \<open>An event on which no reference read succeeds: any fast tick, or a slow tick whose read fails.\<close>

fun reads_fail :: "event \<Rightarrow> bool" where
  "reads_fail (Fast now em) = True"
| "reads_fail (Slow e) = read_fails (emdata e)"

text \<open>
  The state without what the integrator owns: the window and the elapsed-time anchor are
  set to fixed values, every other variable is kept.
\<close>

definition outside_integrator :: "state \<Rightarrow> state" where
  "outside_integrator s =
     s\<lparr> delta_energy_integrate_wh := lit 0,
        delta_energy_ret_integrate_wh := lit 0,
        last_integration_uptime_ms := None \<rparr>"

text \<open>
  A worked run. The two virtual numbers hold 100 Wh and 40 Wh; at startup the counters
  read (5000, 200). The script integrates 1000 W for one hour in two ticks, then sees the
  counters at (6000, 250), and five seconds later sees them unchanged. In a second run
  every reference read fails.
\<close>

definition demo_virt :: "string \<Rightarrow> vhandle option" where
  "demo_virt =
     Map.empty(NET_METERED_ENERGY_KEY \<mapsto> \<lparr> getStatus = Some \<lparr> st_value = JNumber (lit 100) \<rparr> \<rparr>,
               NET_METERED_ENERGY_RET_KEY \<mapsto> \<lparr> getStatus = Some \<lparr> st_value = JNumber (lit 40) \<rparr> \<rparr>)"

definition demo_totals :: "uptime \<Rightarrow> emdata_status option \<Rightarrow> totals_env" where
  "demo_totals now emd =
     \<lparr> emdata = emd, up_baseline1 = now, up_baseline2 = now, up_detect = now,
       up_correct = now \<rparr>"

definition demo_counters :: "real \<Rightarrow> real \<Rightarrow> emdata_status option" where
  "demo_counters a b = Some \<lparr> total_act = JNumber (lit a), total_act_ret = JNumber (lit b) \<rparr>"

definition demo_started :: state where
  "demo_started = start demo_virt (demo_totals 0 (demo_counters 5000 200))"

definition demo_hour :: "event list" where
  "demo_hour = [Fast 0 None, sample 1800000 (dbl 1000), sample 3600000 (dbl 1000),
                Slow (demo_totals 3600000 (demo_counters 6000 250))]"

definition demo_settled :: "event list" where
  "demo_settled = [Slow (demo_totals 3605000 (demo_counters 6000 250))]"

definition demo_blind :: "event list" where
  "demo_blind = [Fast 0 None, sample 500 (dbl 230), Slow (demo_totals 5000 None),
                 Slow (demo_totals 10000
                   (Some \<lparr> total_act = JNumber (lit 5000), total_act_ret = JOther \<rparr>))]"

section \<open>Rounding\<close>

text \<open>The exponent search: its range, the binade it finds, and monotonicity.\<close>

lemma find_exp_ge: "e \<le> find_exp n e a"
proof (induction n arbitrary: e)
  case 0
  show ?case by simp
next
  case (Suc n)
  from Suc [of "e + 1"] show ?case by simp
qed

lemma find_exp_le: "find_exp n e a \<le> e + int n"
proof (induction n arbitrary: e)
  case 0
  show ?case by simp
next
  case (Suc n)
  from Suc [of "e + 1"] show ?case by simp
qed

lemma find_exp_upper: "find_exp n e a < e + int n \<Longrightarrow> a < 2 powi (find_exp n e a + 53)"
  by (induction n arbitrary: e) (simp, force)

lemma find_exp_lower: "e < find_exp n e a \<Longrightarrow> 2 powi (find_exp n e a + 52) \<le> a"
proof (induction n arbitrary: e)
  case 0
  then show ?case by simp
next
  case (Suc n)
  from Suc.prems have ge: "\<not> a < 2 powi (e + 53)"
    by (auto split: if_splits)
  then have eq: "find_exp (Suc n) e a = find_exp n (e + 1) a" by simp
  show ?case
  proof (cases "e + 1 < find_exp n (e + 1) a")
    case True
    from Suc.IH [OF this] eq show ?thesis by simp
  next
    case False
    with find_exp_ge [of "e + 1" n a] have "find_exp n (e + 1) a = e + 1" by simp
    with eq ge show ?thesis by (simp add: add.commute)
  qed
qed

lemma find_exp_least: "a < 2 powi (k + 53) \<Longrightarrow> e \<le> k \<Longrightarrow> find_exp n e a \<le> k"
proof (induction n arbitrary: e)
  case 0
  then show ?case by simp
next
  case (Suc n)
  show ?case
  proof (cases "a < 2 powi (e + 53)")
    case True
    with Suc.prems show ?thesis by simp
  next
    case False
    with Suc.prems(1) have "e \<noteq> k" by auto
    with Suc.prems(2) have "e + 1 \<le> k" by simp
    from Suc.IH [OF Suc.prems(1) this] False show ?thesis by simp
  qed
qed

lemma find_exp_mono: "a \<le> b \<Longrightarrow> find_exp n e a \<le> find_exp n e b"
proof (induction n arbitrary: e)
  case 0
  then show ?case by simp
next
  case (Suc n)
  show ?case
  proof (cases "b < 2 powi (e + 53)")
    case True
    with Suc.prems show ?thesis by simp
  next
    case False
    show ?thesis
    proof (cases "a < 2 powi (e + 53)")
      case True
      with False find_exp_ge [of "e + 1" n b] show ?thesis by simp
    next
      case a: False
      with False Suc.IH [OF Suc.prems, of "e + 1"] show ?thesis by simp
    qed
  qed
qed

lemma ulp_exp_range: "- 1074 \<le> ulp_exp x \<and> ulp_exp x \<le> 972"
  using find_exp_ge [of "- 1074" 2046 "\<bar>x\<bar>"] find_exp_le [of 2046 "- 1074" "\<bar>x\<bar>"]
  by (simp add: ulp_exp_def)

lemma ulp_exp_upper: "ulp_exp x < 972 \<Longrightarrow> \<bar>x\<bar> < 2 powi (ulp_exp x + 53)"
  unfolding ulp_exp_def by (rule find_exp_upper) simp

lemma ulp_exp_lower: "- 1074 < ulp_exp x \<Longrightarrow> 2 powi (ulp_exp x + 52) \<le> \<bar>x\<bar>"
  unfolding ulp_exp_def by (rule find_exp_lower)

lemma ulp_exp_least: "\<bar>x\<bar> < 2 powi (k + 53) \<Longrightarrow> - 1074 \<le> k \<Longrightarrow> ulp_exp x \<le> k"
  unfolding ulp_exp_def by (rule find_exp_least)

lemma ulp_exp_mono: "\<bar>x\<bar> \<le> \<bar>y\<bar> \<Longrightarrow> ulp_exp x \<le> ulp_exp y"
  unfolding ulp_exp_def by (rule find_exp_mono)

lemma ulp_exp_minus: "ulp_exp (- x) = ulp_exp x"
  by (simp add: ulp_exp_def)

lemma round_half_even_of_int: "round_half_even (of_int n) = n"
  by (simp add: round_half_even_def)

lemma round_half_even_bounds:
  "\<lfloor>y\<rfloor> \<le> round_half_even y \<and> round_half_even y \<le> \<lfloor>y\<rfloor> + 1"
  by (simp add: round_half_even_def Let_def)

lemma round_half_even_error: "\<bar>of_int (round_half_even y) - y\<bar> \<le> 1 / 2"
  unfolding round_half_even_def Let_def
  by (auto simp: abs_le_iff)

lemma round_half_even_mono:
  assumes "x \<le> y"
  shows "round_half_even x \<le> round_half_even y"
proof (cases "\<lfloor>x\<rfloor> = \<lfloor>y\<rfloor>")
  case False
  with assms have "\<lfloor>x\<rfloor> + 1 \<le> \<lfloor>y\<rfloor>"
    using floor_mono [OF assms] by linarith
  with round_half_even_bounds [of x] round_half_even_bounds [of y] show ?thesis
    by linarith
next
  case True
  with assms show ?thesis
    by (auto simp: round_half_even_def Let_def)
qed

lemma round_half_even_minus: "round_half_even (- y) = - round_half_even y"
proof (cases "y = of_int \<lfloor>y\<rfloor>")
  case True
  then obtain n where "y = of_int n" ..
  then have "- y = of_int (- n)" by simp
  then show ?thesis
    unfolding \<open>y = of_int n\<close> by (metis round_half_even_of_int)
next
  case False
  then have fl: "\<lfloor>- y\<rfloor> = - \<lfloor>y\<rfloor> - 1"
    by (simp add: floor_minus ceiling_altdef)
  show ?thesis
    unfolding round_half_even_def Let_def fl
    by (auto simp: field_simps) 
qed

text \<open>
  Rounding is odd and monotone, leaves the representable values alone, so it is
  idempotent, and errs by at most half a unit in the last place.
\<close>

lemma two_powi_pos: "0 < (2::real) powi e"
  by simp

lemma two_powi_add: "(2::real) powi (a + b) = 2 powi a * 2 powi b"
  by (simp add: power_int_add)

lemma two_powi_mono: "a \<le> b \<Longrightarrow> (2::real) powi a \<le> 2 powi b"
  by (rule power_int_increasing) simp_all

lemma rnd_minus: "rnd (- x) = - rnd x"
  by (simp add: rnd_def ulp_exp_minus round_half_even_minus)

lemma rnd_0: "rnd 0 = 0"
  by (simp add: rnd_def round_half_even_def)

lemma rnd_lower:
  assumes "of_int a * 2 powi ulp_exp x \<le> x"
  shows "of_int a * 2 powi ulp_exp x \<le> rnd x"
proof -
  from assms have "of_int a \<le> x / 2 powi ulp_exp x"
    by (simp add: pos_le_divide_eq)
  from round_half_even_mono [OF this] have "a \<le> round_half_even (x / 2 powi ulp_exp x)"
    by (simp add: round_half_even_of_int)
  then have "(of_int a :: real) \<le> of_int (round_half_even (x / 2 powi ulp_exp x))"
    by simp
  then show ?thesis
    unfolding rnd_def by (rule mult_right_mono) simp
qed

lemma rnd_upper:
  assumes "x \<le> of_int b * 2 powi ulp_exp x"
  shows "rnd x \<le> of_int b * 2 powi ulp_exp x"
proof -
  from assms have "x / 2 powi ulp_exp x \<le> of_int b"
    by (simp add: pos_divide_le_eq)
  from round_half_even_mono [OF this] have "round_half_even (x / 2 powi ulp_exp x) \<le> b"
    by (simp add: round_half_even_of_int)
  then have "(of_int (round_half_even (x / 2 powi ulp_exp x)) :: real) \<le> of_int b"
    by simp
  then show ?thesis
    unfolding rnd_def by (rule mult_right_mono) simp
qed

lemma rnd_nonneg: "0 \<le> x \<Longrightarrow> 0 \<le> rnd x"
  using rnd_lower [of 0 x] by simp

lemma rnd_nonpos: "x \<le> 0 \<Longrightarrow> rnd x \<le> 0"
  using rnd_upper [of x 0] by simp

lemma rnd_error: "\<bar>rnd x - x\<bar> \<le> 2 powi ulp_exp x / 2"
proof -
  let ?u = "(2::real) powi ulp_exp x"
  have "rnd x - x = (of_int (round_half_even (x / ?u)) - x / ?u) * ?u"
    by (simp add: rnd_def algebra_simps)
  then have "\<bar>rnd x - x\<bar> = \<bar>of_int (round_half_even (x / ?u)) - x / ?u\<bar> * ?u"
    by (simp add: abs_mult)
  also have "\<dots> \<le> 1 / 2 * ?u"
    by (rule mult_right_mono [OF round_half_even_error]) simp
  finally show ?thesis by simp
qed

lemma rnd_below_next_binade:
  assumes "0 \<le> x" and "ulp_exp x < 972"
  shows "rnd x \<le> 2 powi (ulp_exp x + 53)"
proof -
  from ulp_exp_upper [OF assms(2)] assms(1) have "x \<le> 2 powi 53 * 2 powi ulp_exp x"
    by (simp add: two_powi_add mult.commute)
  then have "x \<le> of_int (2 ^ 53) * 2 powi ulp_exp x" by simp
  from rnd_upper [OF this] show ?thesis
    by (simp add: two_powi_add mult.commute)
qed

lemma rnd_above_binade:
  assumes "0 \<le> x" and "- 1074 < ulp_exp x"
  shows "2 powi (ulp_exp x + 52) \<le> rnd x"
proof -
  from ulp_exp_lower [OF assms(2)] assms(1) have "2 powi 52 * 2 powi ulp_exp x \<le> x"
    by (simp add: two_powi_add mult.commute)
  then have "of_int (2 ^ 52) * 2 powi ulp_exp x \<le> x" by simp
  from rnd_lower [OF this] show ?thesis
    by (simp add: two_powi_add mult.commute)
qed

lemma rnd_mono_nonneg:
  assumes "0 \<le> x" and "x \<le> y"
  shows "rnd x \<le> rnd y"
proof -
  from assms have y: "0 \<le> y" by simp
  from assms have le: "ulp_exp x \<le> ulp_exp y"
    by (intro ulp_exp_mono) simp
  show ?thesis
  proof (cases "ulp_exp x = ulp_exp y")
    case True
    from assms(2) have "x / 2 powi ulp_exp y \<le> y / 2 powi ulp_exp y"
      by (simp add: divide_right_mono)
    from round_half_even_mono [OF this]
    have "(of_int (round_half_even (x / 2 powi ulp_exp y)) :: real)
            \<le> of_int (round_half_even (y / 2 powi ulp_exp y))"
      by simp
    then show ?thesis
      unfolding rnd_def True by (rule mult_right_mono) simp
  next
    case False
    with le have lt: "ulp_exp x < ulp_exp y" by simp
    with ulp_exp_range [of y] have "ulp_exp x < 972" by simp
    from rnd_below_next_binade [OF assms(1) this]
    have "rnd x \<le> 2 powi (ulp_exp x + 53)" .
    also from lt have "\<dots> \<le> 2 powi (ulp_exp y + 52)"
      by (intro two_powi_mono) simp
    also from lt ulp_exp_range [of x] have "- 1074 < ulp_exp y" by simp
    from rnd_above_binade [OF y this] have "2 powi (ulp_exp y + 52) \<le> rnd y" .
    finally show ?thesis .
  qed
qed

lemma rnd_mono:
  assumes "x \<le> y"
  shows "rnd x \<le> rnd y"
proof (cases "0 \<le> x")
  case True
  then show ?thesis using assms by (rule rnd_mono_nonneg)
next
  case neg: False
  show ?thesis
  proof (cases "0 \<le> y")
    case True
    from neg have "rnd x \<le> 0" by (intro rnd_nonpos) simp
    also from True have "0 \<le> rnd y" by (rule rnd_nonneg)
    finally show ?thesis .
  next
    case False
    with assms have "0 \<le> - y" "- y \<le> - x" by simp_all
    from rnd_mono_nonneg [OF this] show ?thesis by (simp add: rnd_minus)
  qed
qed

lemma rnd_fixed:
  assumes "x = of_int m * 2 powi e" and "ulp_exp x \<le> e"
  shows "rnd x = x"
proof -
  define u :: real where "u = 2 powi ulp_exp x"
  define k :: int where "k = 2 ^ nat (e - ulp_exp x)"
  have u: "0 < u" by (simp add: u_def)
  from assms(2) have "(2::real) powi (e - ulp_exp x) = of_int k"
    by (simp add: k_def power_int_nonneg_exp)
  moreover have "(2::real) powi e = 2 powi (e - ulp_exp x) * u"
    by (simp add: u_def two_powi_add [symmetric])
  ultimately have "(2::real) powi e = of_int k * u"
    by (simp only:)
  then have "of_int m * 2 powi e = of_int (m * k) * u"
    by (simp only: of_int_mult mult.assoc)
  then have "x = of_int (m * k) * u"
    by (simp only: assms(1))
  with u have q: "x / u = of_int (m * k)" by simp
  have "rnd x = of_int (round_half_even (x / u)) * u"
    by (simp add: rnd_def u_def)
  also have "\<dots> = of_int (m * k) * u"
    by (simp only: q round_half_even_of_int)
  also have "\<dots> = x"
    using \<open>x = of_int (m * k) * u\<close> by simp
  finally show ?thesis .
qed

lemma rnd_grid:
  assumes "x = of_int m * 2 powi e" and "- 1074 \<le> e" and "\<bar>m\<bar> < 2 ^ 53"
  shows "rnd x = x"
proof -
  from assms(3) have "\<bar>of_int m :: real\<bar> < 2 ^ 53"
    by (metis of_int_abs of_int_less_numeral_power_cancel_iff)
  then have "\<bar>x\<bar> < 2 powi 53 * 2 powi e"
    unfolding assms(1) by (simp add: abs_mult)
  then have "\<bar>x\<bar> < 2 powi (e + 53)"
    by (simp add: two_powi_add mult.commute)
  from ulp_exp_least [OF this assms(2)] assms(1) show ?thesis
    by (intro rnd_fixed)
qed

lemma rnd_pow2: "- 1074 \<le> e \<Longrightarrow> rnd (2 powi e) = 2 powi e"
  by (rule rnd_grid [of _ 1]) simp_all

lemma rnd_idem_nonneg:
  assumes "0 \<le> x"
  shows "rnd (rnd x) = rnd x"
proof -
  let ?E = "ulp_exp x"
  let ?n = "round_half_even (x / 2 powi ?E)"
  have eq: "rnd x = of_int ?n * 2 powi ?E" by (simp add: rnd_def)
  show ?thesis
  proof (cases "?E < 972")
    case False
    with ulp_exp_range [of x] have "?E = 972" by simp
    with ulp_exp_range [of "rnd x"] have "ulp_exp (rnd x) \<le> ?E" by simp
    with eq show ?thesis by (rule rnd_fixed)
  next
    case True
    from rnd_below_next_binade [OF assms True]
    have up: "rnd x \<le> 2 powi (?E + 53)" .
    show ?thesis
    proof (cases "rnd x = 2 powi (?E + 53)")
      case True
      from ulp_exp_range [of x] have "- 1074 \<le> ?E + 53" by simp
      from rnd_pow2 [OF this] True show ?thesis by simp
    next
      case False
      with up have "rnd x < 2 powi (?E + 53)" by simp
      moreover from assms have "0 \<le> rnd x" by (rule rnd_nonneg)
      ultimately have "\<bar>rnd x\<bar> < 2 powi (?E + 53)" by simp
      from ulp_exp_least [OF this] ulp_exp_range [of x]
      have "ulp_exp (rnd x) \<le> ?E" by simp
      with eq show ?thesis by (rule rnd_fixed)
    qed
  qed
qed

lemma rnd_idem: "rnd (rnd x) = rnd x"
proof (cases "0 \<le> x")
  case True
  then show ?thesis by (rule rnd_idem_nonneg)
next
  case False
  then have "0 \<le> - x" by simp
  from rnd_idem_nonneg [OF this] show ?thesis by (simp add: rnd_minus)
qed

section \<open>Finite numbers\<close>

lemma round_to_double_fixed: "rnd (round_to_double x) = round_to_double x"
  by (simp add: round_to_double_def rnd_idem rnd_0)

lemma rnd_val: "rnd (val d) = val d"
proof -
  from val [of d] obtain x where "val d = round_to_double x" by blast
  then show ?thesis by (simp add: round_to_double_fixed)
qed

lemma val_bound: "\<bar>val d\<bar> < 2 ^ 1024"
proof -
  from val [of d] obtain x where "val d = round_to_double x" by blast
  then show ?thesis by (simp add: round_to_double_def)
qed

lemma val_dbl: "\<bar>rnd x\<bar> < 2 ^ 1024 \<Longrightarrow> val (dbl x) = rnd x"
  by (simp add: dbl.rep_eq round_to_double_def)

lemma val_dbl_fixed: "rnd x = x \<Longrightarrow> \<bar>x\<bar> < 2 ^ 1024 \<Longrightarrow> val (dbl x) = x"
  by (simp add: val_dbl)

lemma dbl_val: "dbl (val d) = d"
proof -
  have "val (dbl (val d)) = val d"
    using val_bound [of d] by (simp add: val_dbl rnd_val)
  then show ?thesis by (simp only: val_inject)
qed

lemma val_dbl_0: "val (dbl 0) = 0"
  by (simp add: val_dbl rnd_0)

lemma val_dbl_minus: "val (dbl (- val a)) = - val a"
  using val_bound [of a] by (simp add: val_dbl rnd_minus rnd_val)

lemma val_dbl_abs: "val (dbl \<bar>val a\<bar>) = \<bar>val a\<bar>"
  using val_dbl_minus [of a] dbl_val [of a] by (simp add: abs_if)

lemma rnd_bounded:
  assumes "\<bar>x\<bar> \<le> 2 powi e" and "- 1074 \<le> e"
  shows "\<bar>rnd x\<bar> \<le> 2 powi e"
proof -
  from assms(1) have "- (2 powi e) \<le> x" "x \<le> 2 powi e" by simp_all
  from rnd_mono [OF this(1)] rnd_mono [OF this(2)] show ?thesis
    by (simp add: rnd_minus rnd_pow2 [OF assms(2)] abs_le_iff)
qed

lemma to_number_finite:
  assumes "\<bar>x\<bar> \<le> 2 powi e" and "- 1074 \<le> e" and "e < 1024"
  shows "to_number x = Fin (dbl x) \<and> val (dbl x) = rnd x \<and> \<bar>rnd x\<bar> \<le> 2 powi e"
proof -
  from rnd_bounded [OF assms(1,2)] have b: "\<bar>rnd x\<bar> \<le> 2 powi e" .
  also from assms(3) have "(2::real) powi e < 2 powi 1024"
    by (intro power_int_strict_increasing) simp_all
  finally have "\<bar>rnd x\<bar> < 2 ^ 1024" by simp
  with b show ?thesis by (simp add: to_number_def val_dbl)
qed

lemma to_number_cases:
  "(to_number x = Fin (dbl x) \<and> val (dbl x) = rnd x) \<or> (to_number x = PInf \<and> 0 < x)
   \<or> (to_number x = NInf \<and> x < 0)"
proof (cases "\<bar>rnd x\<bar> < 2 ^ 1024")
  case True
  then show ?thesis by (simp add: to_number_def val_dbl)
next
  case False
  then have "x \<noteq> 0" by (auto simp: rnd_0)
  with False show ?thesis by (auto simp: to_number_def)
qed

lemma to_number_not_NaN: "to_number x \<noteq> NaN"
  by (simp add: to_number_def)

lemma to_number_lower:
  assumes "val a \<le> x"
  shows "js_le (Fin a) (to_number x)"
proof -
  from rnd_mono [OF assms] have r: "val a \<le> rnd x" by (simp add: rnd_val)
  show ?thesis
  proof (cases "\<bar>rnd x\<bar> < 2 ^ 1024")
    case True
    with r show ?thesis by (simp add: to_number_def val_dbl)
  next
    case False
    with r val_bound [of a] have "0 < rnd x" by (simp add: abs_if split: if_splits)
    with rnd_nonpos [of x] have "0 < x" by (cases "0 < x") simp_all
    with False show ?thesis by (simp add: to_number_def)
  qed
qed

section \<open>Order and sign of numbers\<close>

lemma js_le_trans: "js_le a b \<Longrightarrow> js_le b c \<Longrightarrow> js_le a c"
  by (cases a; cases b; cases c) simp_all

lemma js_le_refl: "js_lt NInf a \<Longrightarrow> js_le a a"
  by (cases a) simp_all

lemma js_lt_imp_le: "js_lt a b \<Longrightarrow> js_le a b"
  by (cases a; cases b) simp_all

lemma js_le_not_lt: "js_le a b \<Longrightarrow> \<not> js_lt b a"
  by (cases a; cases b) simp_all

lemma nonneg_iff: "nonneg x = ((\<exists>d. x = Fin d \<and> 0 \<le> val d) \<or> x = PInf)"
  by (cases x) (simp_all add: nonneg_def lit_def val_dbl_0)

lemma nonneg_lit_0: "nonneg (lit 0)"
  by (simp add: nonneg_def lit_def)

lemma nonneg_above_NInf: "nonneg x \<Longrightarrow> js_lt NInf x"
  by (auto simp: nonneg_iff)

lemma fadd_grows:
  assumes "nonneg b" and "js_lt NInf a"
  shows "js_le a (fadd a b) \<and> js_lt NInf (fadd a b)"
proof (cases a)
  case (Fin x)
  show ?thesis
  proof (cases b)
    case (Fin y)
    with assms(1) have "0 \<le> val y" by (simp add: nonneg_iff)
    then have "val x \<le> val x + val y" by simp
    from to_number_lower [OF this] have "js_le (Fin x) (to_number (val x + val y))" .
    moreover from this have "js_lt NInf (to_number (val x + val y))"
      by (cases "to_number (val x + val y)") simp_all
    ultimately show ?thesis using \<open>a = Fin x\<close> Fin by simp
  qed (use assms(1) \<open>a = Fin x\<close> in \<open>simp_all add: nonneg_iff\<close>)
next
  case PInf
  with assms(1) show ?thesis by (cases b) (simp_all add: nonneg_iff)
qed (use assms(2) in simp_all)

lemma fadd_nonneg:
  assumes "nonneg a" and "nonneg b"
  shows "nonneg (fadd a b)"
proof -
  from fadd_grows [OF assms(2) nonneg_above_NInf [OF assms(1)]]
  have "js_le a (fadd a b)" by simp
  with assms(1) show ?thesis
    unfolding nonneg_def by (rule js_le_trans)
qed

lemma fadd_never_lowers:
  assumes "nonneg b"
  shows "\<not> js_lt (fadd a b) a"
proof (cases "js_lt NInf a")
  case True
  from fadd_grows [OF assms True] show ?thesis by (simp add: js_le_not_lt)
next
  case False
  then have "a = NInf \<or> a = NaN" by (cases a) simp_all
  with assms show ?thesis by (cases b) (auto simp: nonneg_iff)
qed

lemma fmul_nonneg:
  assumes "nonneg a" and "0 < val k"
  shows "nonneg (fmul a (Fin k))"
proof (cases a)
  case (Fin x)
  with assms have "0 \<le> val x * val k" by (simp add: nonneg_iff)
  then have "val (dbl 0) \<le> val x * val k" by (simp add: val_dbl_0)
  from to_number_lower [OF this] Fin show ?thesis
    by (simp add: nonneg_def lit_def)
next
  case PInf
  with assms(2) show ?thesis by (simp add: nonneg_iff)
qed (use assms(1) in \<open>simp_all add: nonneg_iff\<close>)

lemma fneg_nonneg:
  assumes "\<not> js_ge x (lit 0)" and "x \<noteq> NaN"
  shows "nonneg (fneg x)"
proof (cases x)
  case (Fin d)
  with assms(1) have "val d < 0" by (simp add: js_ge_def lit_def val_dbl_0)
  with Fin show ?thesis by (simp add: nonneg_iff val_dbl_minus)
qed (use assms in \<open>simp_all add: js_ge_def lit_def nonneg_iff\<close>)

lemma js_ge_nonneg: "js_ge x (lit 0) = nonneg x"
  by (simp add: js_ge_def nonneg_def)

section \<open>Literals and uptimes\<close>

lemma lit_val:
  assumes "\<bar>x\<bar> \<le> 2 powi e" and "- 1074 \<le> e" and "e < 1024"
  shows "val (dbl x) = rnd x"
  using to_number_finite [OF assms] by simp

lemma rnd_of_int: "\<bar>n\<bar> < 2 ^ 53 \<Longrightarrow> rnd (of_int n) = of_int n"
  by (rule rnd_grid [of _ n 0]) simp_all

lemma val_dbl_of_int:
  assumes "\<bar>n\<bar> < 2 ^ 53"
  shows "val (dbl (of_int n)) = of_int n"
proof -
  from assms have "\<bar>of_int n :: real\<bar> < 2 ^ 53"
    by (metis of_int_abs of_int_less_numeral_power_cancel_iff)
  also have "(2::real) ^ 53 < 2 ^ 1024" by simp
  finally show ?thesis by (simp add: val_dbl_fixed rnd_of_int [OF assms])
qed

lemma val_3600000: "val (dbl 3600000) = 3600000"
  using val_dbl_of_int [of 3600000] by simp

lemma ms_finite: "\<exists>d. ms w = Fin d \<and> 0 \<le> val d \<and> val d \<le> 2 ^ 64"
proof -
  define n where "n = unat w"
  have "n < 2 ^ 64" unfolding n_def using unsigned_less [of w] by simp
  then have "real n < 2 ^ 64"
    by (metis of_nat_less_numeral_power_cancel_iff)
  then have b: "\<bar>real n\<bar> \<le> 2 powi 64" by simp
  from to_number_finite [OF b] have f: "to_number (real n) = Fin (dbl (real n))"
    "val (dbl (real n)) = rnd (real n)" "\<bar>rnd (real n)\<bar> \<le> 2 powi 64"
    by simp_all
  moreover have "0 \<le> rnd (real n)" by (rule rnd_nonneg) simp
  ultimately have "to_number (real n) = Fin (dbl (real n)) \<and> 0 \<le> val (dbl (real n))
      \<and> val (dbl (real n)) \<le> 2 ^ 64"
    by simp
  then show ?thesis unfolding ms_def n_def by blast
qed

lemma elapsed_finite: "\<exists>d. fsub (ms a) (ms b) = Fin d \<and> \<bar>val d\<bar> \<le> 2 ^ 64"
proof -
  from ms_finite [of a] obtain x where x: "ms a = Fin x" "0 \<le> val x" "val x \<le> 2 ^ 64" by blast
  from ms_finite [of b] obtain y where y: "ms b = Fin y" "0 \<le> val y" "val y \<le> 2 ^ 64" by blast
  from x y have "\<bar>val x - val y\<bar> \<le> 2 powi 64" by simp
  from to_number_finite [OF this] x(1) y(1) show ?thesis
    by (simp add: fsub_def val_dbl_minus)
qed

lemma energy_not_NaN:
  assumes "\<not> js_le (fsub (ms a) (ms b)) (lit 0)"
  shows "fmul (Fin p) (fdiv (fsub (ms a) (ms b)) (lit 3600000)) \<noteq> NaN"
proof -
  from elapsed_finite [of a b] obtain d where d: "fsub (ms a) (ms b) = Fin d" "\<bar>val d\<bar> \<le> 2 ^ 64"
    by blast
  from d(2) have "\<bar>val d / 3600000\<bar> \<le> 2 powi 64" by simp
  from to_number_finite [OF this] d(1) show ?thesis
    by (simp add: lit_def val_3600000 to_number_not_NaN)
qed

section \<open>Evaluating a rounding\<close>

lemma ulp_exp_eq:
  assumes "2 powi (e + 52) \<le> \<bar>x\<bar>" and "\<bar>x\<bar> < 2 powi (e + 53)" and "- 1074 \<le> e"
      and "e \<le> 972"
  shows "ulp_exp x = e"
proof (rule antisym)
  from assms(2,3) show "ulp_exp x \<le> e" by (rule ulp_exp_least)
next
  show "e \<le> ulp_exp x"
  proof (rule ccontr)
    assume "\<not> e \<le> ulp_exp x"
    then have lt: "ulp_exp x < e" by simp
    with assms(4) have "ulp_exp x < 972" by simp
    from ulp_exp_upper [OF this] have "\<bar>x\<bar> < 2 powi (ulp_exp x + 53)" .
    also from lt have "\<dots> \<le> 2 powi (e + 52)" by (intro two_powi_mono) simp
    finally show False using assms(1) by simp
  qed
qed

lemma rnd_eval:
  assumes "2 powi (e + 52) \<le> \<bar>x\<bar>" and "\<bar>x\<bar> < 2 powi (e + 53)" and "- 1074 \<le> e"
      and "e \<le> 972"
  shows "rnd x = of_int (round_half_even (x / 2 powi e)) * 2 powi e"
  by (simp add: rnd_def ulp_exp_eq [OF assms])

lemma rnd_tenth: "rnd (1 / 10) = 3602879701896397 / 36028797018963968"
  by (subst rnd_eval [of "- 56"]) (simp_all add: round_half_even_def)

lemma rnd_095: "rnd (19 / 20) = 4278419646001971 / 4503599627370496"
  by (subst rnd_eval [of "- 53"]) (simp_all add: round_half_even_def)

lemma rnd_1000_095: "rnd (1000 * (4278419646001971 / 4503599627370496)) = 950"
  by (subst rnd_eval [of "- 43"]) (simp_all add: round_half_even_def)

section \<open>Evaluating whole numbers\<close>

lemma val_dbl_numeral: "(numeral k :: int) < 2 ^ 53 \<Longrightarrow> val (dbl (numeral k)) = numeral k"
  using val_dbl_of_int [of "numeral k"] by simp

lemma val_dbl_1: "val (dbl 1) = 1"
  using val_dbl_of_int [of 1] by simp

lemma val_dbl_neg_numeral:
  "(numeral k :: int) < 2 ^ 53 \<Longrightarrow> val (dbl (- numeral k)) = - numeral k"
  using val_dbl_of_int [of "- numeral k"] by simp

lemma to_number_of_int:
  assumes "\<bar>n\<bar> < 2 ^ 53"
  shows "to_number (of_int n) = Fin (dbl (of_int n))"
proof -
  from assms have "\<bar>of_int n :: real\<bar> < 2 ^ 53"
    by (metis of_int_abs of_int_less_numeral_power_cancel_iff)
  also have "(2::real) ^ 53 < 2 ^ 1024" by simp
  finally show ?thesis by (simp add: to_number_def rnd_of_int [OF assms])
qed

lemma to_number_numeral:
  "(numeral k :: int) < 2 ^ 53 \<Longrightarrow> to_number (numeral k) = Fin (dbl (numeral k))"
  using to_number_of_int [of "numeral k"] by simp

lemma to_number_neg_numeral:
  "(numeral k :: int) < 2 ^ 53 \<Longrightarrow> to_number (- numeral k) = Fin (dbl (- numeral k))"
  using to_number_of_int [of "- numeral k"] by simp

lemma to_number_0: "to_number 0 = Fin (dbl 0)"
  by (simp add: to_number_def rnd_0)

lemma to_number_1: "to_number 1 = Fin (dbl 1)"
  using to_number_of_int [of 1] by simp

lemma dbl_eq_iff: "(dbl x = dbl y) = (val (dbl x) = val (dbl y))"
  by (simp add: val_inject)

lemma ms_numeral: "ms (numeral k) = to_number (real (unat (numeral k :: 64 word)))"
  by (simp add: ms_def)

lemmas whole_numbers =
  val_dbl_numeral val_dbl_neg_numeral val_dbl_0 val_dbl_1
  to_number_numeral to_number_neg_numeral to_number_0 to_number_1 dbl_eq_iff
  lit_def fsub_def js_gt_def js_ge_def elapsed_def

lemma to_number_at:
  assumes "2 powi (e + 52) \<le> \<bar>x\<bar>" and "\<bar>x\<bar> < 2 powi (e + 53)"
      and "- 1074 \<le> e" and "e \<le> 970"
      and "of_int (round_half_even (x / 2 powi e)) * 2 powi e = v"
  shows "to_number x = Fin (dbl v) \<and> val (dbl v) = v \<and> val (dbl x) = v"
proof -
  from assms(4) have e: "e \<le> 972" by simp
  from rnd_eval [OF assms(1-3) e] assms(5) have r: "rnd x = v" by simp
  from assms(2) have "\<bar>x\<bar> \<le> 2 powi (e + 53)" by simp
  moreover from assms(3) have "- 1074 \<le> e + 53" by simp
  moreover from assms(4) have "e + 53 < 1024" by simp
  ultimately have f: "to_number x = Fin (dbl x)" "val (dbl x) = rnd x"
    using to_number_finite [of x "e + 53"] by simp_all
  from f(2) r have "val (dbl x) = v" by simp
  moreover from this have "val (dbl v) = v"
    using rnd_val [of "dbl x"] val_bound [of "dbl x"] by (simp add: val_dbl)
  ultimately have "dbl x = dbl v" by (simp add: val_inject [symmetric])
  with f(1) \<open>val (dbl v) = v\<close> \<open>val (dbl x) = v\<close> show ?thesis by simp
qed

section \<open>Reading the reference counters\<close>

lemma isNumber_numval: "isNumber v \<Longrightarrow> \<exists>x. v = JNumber (Fin x) \<and> numval v = Some x"
  by (cases v rule: isNumber.cases) simp_all

text \<open>
  C9. The reference-counter read updates the two cached totals either both or not at
  all: when the read fails it returns false and the state is unchanged, when it succeeds
  both counters are finite numbers and both cached values are set to them; in particular
  a finite \<open>total_act\<close> with a non-numeric \<open>total_act_ret\<close>, or the reverse, returns
  false and changes nothing.
\<close>

theorem readTotalsWh_both_or_neither:
  "(read_fails emd \<longrightarrow> readTotalsWh emd s = (False, s))
   \<and> (\<not> read_fails emd \<longrightarrow>
        (\<exists>st a b. emd = Some st \<and> total_act st = JNumber (Fin a)
           \<and> total_act_ret st = JNumber (Fin b)
           \<and> readTotalsWh emd s =
               (True, s\<lparr> current_total_energy_wh := Some a,
                          current_total_energy_ret_wh := Some b \<rparr>)))
   \<and> (isNumber a' \<and> \<not> isNumber b' \<longrightarrow>
        readTotalsWh (Some \<lparr> total_act = a', total_act_ret = b' \<rparr>) s = (False, s))
   \<and> (\<not> isNumber a' \<and> isNumber b' \<longrightarrow>
        readTotalsWh (Some \<lparr> total_act = a', total_act_ret = b' \<rparr>) s = (False, s))"
proof (intro conjI impI)
  assume "read_fails emd"
  then show "readTotalsWh emd s = (False, s)"
    by (auto simp: read_fails_def readTotalsWh_def split: option.splits)
next
  assume ok: "\<not> read_fails emd"
  then obtain st where st: "emd = Some st" "isNumber (total_act st)" "isNumber (total_act_ret st)"
    by (auto simp: read_fails_def split: option.splits)
  from st(2) obtain a where a: "total_act st = JNumber (Fin a)" "numval (total_act st) = Some a"
    using isNumber_numval by blast
  from st(3) obtain b where b: "total_act_ret st = JNumber (Fin b)"
      "numval (total_act_ret st) = Some b"
    using isNumber_numval by blast
  have "readTotalsWh emd s =
          (True, s\<lparr> current_total_energy_wh := Some a, current_total_energy_ret_wh := Some b \<rparr>)"
    using st a b by (simp add: readTotalsWh_def)
  with st(1) a(1) b(1)
  show "\<exists>st a b. emd = Some st \<and> total_act st = JNumber (Fin a)
           \<and> total_act_ret st = JNumber (Fin b)
           \<and> readTotalsWh emd s =
               (True, s\<lparr> current_total_energy_wh := Some a,
                          current_total_energy_ret_wh := Some b \<rparr>)"
    by blast
next
  assume "isNumber a' \<and> \<not> isNumber b'"
  then show "readTotalsWh (Some \<lparr> total_act = a', total_act_ret = b' \<rparr>) s = (False, s)"
    by (simp add: readTotalsWh_def)
next
  assume "\<not> isNumber a' \<and> isNumber b'"
  then show "readTotalsWh (Some \<lparr> total_act = a', total_act_ret = b' \<rparr>) s = (False, s)"
    by (simp add: readTotalsWh_def)
qed

theorem readTotalsWh_both_or_neither_witness:
  "isNumber (JNumber (lit 1200)) \<and> \<not> isNumber (JNumber NaN)
   \<and> read_fails (Some \<lparr> total_act = JNumber (lit 1200), total_act_ret = JNumber NaN \<rparr>)
   \<and> readTotalsWh (Some \<lparr> total_act = JNumber (lit 1200), total_act_ret = JNumber NaN \<rparr>)
        init_state
       = (False, init_state)
   \<and> \<not> read_fails (Some \<lparr> total_act = JNumber (lit 1200), total_act_ret = JNumber (lit 300) \<rparr>)
   \<and> readTotalsWh (Some \<lparr> total_act = JNumber (lit 1200), total_act_ret = JNumber (lit 300) \<rparr>)
        init_state
       = (True, init_state\<lparr> current_total_energy_wh := Some (dbl 1200),
                             current_total_energy_ret_wh := Some (dbl 300) \<rparr>)"
  using readTotalsWh_both_or_neither
          [of "Some \<lparr> total_act = JNumber (lit 1200), total_act_ret = JNumber NaN \<rparr>" init_state
              "JNumber (lit 1200)" "JNumber NaN"]
        readTotalsWh_both_or_neither
          [of "Some \<lparr> total_act = JNumber (lit 1200), total_act_ret = JNumber (lit 300) \<rparr>"
              init_state "JNumber (lit 1200)" "JNumber NaN"]
  by (simp add: read_fails_def lit_def)

section \<open>Loading the persisted accumulators\<close>

text \<open>
  C10. At startup an accumulator that cannot be loaded (no handle, no status, or a
  stored value that is not a finite number) starts at 0, each of the two independently
  of the other; an accumulator whose component holds a finite number starts at it.
\<close>

theorem loadPersisted_defaults:
  "(cannot_load (virt NET_METERED_ENERGY_KEY) \<longrightarrow>
      net_metered_energy_wh (loadPersisted virt s) = lit 0)
   \<and> (cannot_load (virt NET_METERED_ENERGY_RET_KEY) \<longrightarrow>
      net_metered_energy_ret_wh (loadPersisted virt s) = lit 0)
   \<and> (\<forall>h x. virt NET_METERED_ENERGY_KEY = Some h
          \<and> getStatus h = Some \<lparr> st_value = JNumber (Fin x) \<rparr> \<longrightarrow>
      net_metered_energy_wh (loadPersisted virt s) = Fin x)
   \<and> (\<forall>h x. virt NET_METERED_ENERGY_RET_KEY = Some h
          \<and> getStatus h = Some \<lparr> st_value = JNumber (Fin x) \<rparr> \<longrightarrow>
      net_metered_energy_ret_wh (loadPersisted virt s) = Fin x)"
  by (auto simp: cannot_load_def loadPersisted_def Let_def split: option.splits)

theorem loadPersisted_defaults_witness:
  "cannot_load
     ((Map.empty(NET_METERED_ENERGY_RET_KEY \<mapsto>
         \<lparr> getStatus = Some \<lparr> st_value = JNumber (lit 42) \<rparr> \<rparr>)) NET_METERED_ENERGY_KEY)
   \<and> net_metered_energy_wh (loadPersisted
        (Map.empty(NET_METERED_ENERGY_RET_KEY \<mapsto>
           \<lparr> getStatus = Some \<lparr> st_value = JNumber (lit 42) \<rparr> \<rparr>))
        init_state) = lit 0
   \<and> net_metered_energy_ret_wh (loadPersisted
        (Map.empty(NET_METERED_ENERGY_RET_KEY \<mapsto>
           \<lparr> getStatus = Some \<lparr> st_value = JNumber (lit 42) \<rparr> \<rparr>))
        init_state) = lit 42"
  using loadPersisted_defaults
          [of "Map.empty(NET_METERED_ENERGY_RET_KEY \<mapsto>
                 \<lparr> getStatus = Some \<lparr> st_value = JNumber (lit 42) \<rparr> \<rparr>)"
              init_state]
  by (simp add: cannot_load_def NET_METERED_ENERGY_KEY_def NET_METERED_ENERGY_RET_KEY_def
        lit_def)

section \<open>The correction\<close>

lemma clampMinMax_bounds:
  assumes "js_le lo hi" and "v \<noteq> NaN"
  shows "js_le lo (clampMinMax v lo hi) \<and> js_le (clampMinMax v lo hi) hi"
  using assms by (cases v; cases lo; cases hi) (auto simp: clampMinMax_def js_gt_def)

lemma val_tenth: "val (dbl (1 / 10)) = 3602879701896397 / 36028797018963968"
  by (simp add: val_dbl rnd_tenth)

lemma rnd_quarter: "rnd (1 / 4) = 1 / 4"
  by (rule rnd_grid [of _ 1 "- 2"]) simp_all

lemma val_thousandth_le: "val (dbl (1 / 1000)) \<le> 1 / 4"
proof -
  have "rnd (1 / 1000) \<le> rnd (1 / 4)" by (rule rnd_mono) simp
  then have r: "rnd (1 / 1000) \<le> 1 / 4" by (simp only: rnd_quarter)
  moreover have "0 \<le> rnd (1 / 1000)" by (rule rnd_nonneg) simp
  ultimately have "val (dbl (1 / 1000)) = rnd (1 / 1000)" by (simp add: val_dbl)
  with r show ?thesis by simp
qed

lemma clamp_range_ordered: "js_le (lit 0.1) (lit 10)"
  by (simp add: lit_def val_tenth val_dbl_numeral)

lemma clampMinMax_one: "clampMinMax (lit 1) (lit 0.1) (lit 10) = lit 1"
  by (simp add: clampMinMax_def js_gt_def lit_def val_tenth val_dbl_numeral val_dbl_1)

lemma correctionFactor_cases:
  "correctionFactor a b =
     (if isNumber (JNumber b) \<and> js_gt (fabs b) (lit 0.001)
         \<and> isNumber (JNumber (fdiv a b)) \<and> js_gt (fdiv a b) (lit 0.001)
      then clampMinMax (fdiv a b) (lit 0.1) (lit 10)
      else lit 1)"
proof (cases "isNumber (JNumber b) \<and> js_gt (fabs b) (lit 0.001)")
  case False
  then show ?thesis
    by (auto simp: correctionFactor_def Let_def ENERGY_EPSILON_WH_def clampMinMax_one)
next
  case guard: True
  have one: "\<not> js_le (lit 1) (lit 0.001)"
    using val_thousandth_le by (simp add: lit_def val_dbl_1)
  show ?thesis
  proof (cases "isNumber (JNumber (fdiv a b))")
    case False
    with guard one show ?thesis
      by (simp add: correctionFactor_def Let_def ENERGY_EPSILON_WH_def clampMinMax_one)
  next
    case True
    then obtain q where q: "fdiv a b = Fin q" by (cases "fdiv a b") simp_all
    then have "js_le (fdiv a b) (lit 0.001) = (\<not> js_gt (fdiv a b) (lit 0.001))"
      by (auto simp: js_gt_def lit_def)
    with guard True show ?thesis
      by (simp add: correctionFactor_def Let_def ENERGY_EPSILON_WH_def clampMinMax_one)
  qed
qed

lemma correctionFactor_bounds:
  "js_le (lit 0.1) (correctionFactor a b) \<and> js_le (correctionFactor a b) (lit 10)"
proof (cases "isNumber (JNumber b) \<and> js_gt (fabs b) (lit 0.001)
         \<and> isNumber (JNumber (fdiv a b)) \<and> js_gt (fdiv a b) (lit 0.001)")
  case True
  then have "fdiv a b \<noteq> NaN" by auto
  from clampMinMax_bounds [OF clamp_range_ordered this] True show ?thesis
    by (simp add: correctionFactor_cases)
next
  case False
  then have "correctionFactor a b = lit 1"
    unfolding correctionFactor_cases by (rule if_not_P)
  then show ?thesis
    by (simp add: lit_def val_tenth val_dbl_numeral val_dbl_1)
qed

lemma correctionFactor_finite:
  "\<exists>k. correctionFactor a b = Fin k \<and> 1 / 10 \<le> val k \<and> val k \<le> 10"
proof -
  from correctionFactor_bounds [of a b] show ?thesis
    by (cases "correctionFactor a b") (simp_all add: lit_def val_tenth val_dbl_numeral)
qed

lemma applyCorrectionIfReady_fires:
  assumes "totals_changed_since_last_correction s"
      and "js_ge (elapsed (totals_last_change_uptime_ms s) now) (lit 5000)"
  shows "applyCorrectionIfReady t r now s =
     (let k = correctionFactor
                (fsub (fsub (toNumber t) (toNumber (baseline_total_energy_wh s)))
                      (fsub (toNumber r) (toNumber (baseline_total_energy_ret_wh s))))
                (fsub (delta_energy_integrate_wh s) (delta_energy_ret_integrate_wh s));
          net = fadd (net_metered_energy_wh s) (fmul (delta_energy_integrate_wh s) k);
          net_ret = fadd (net_metered_energy_ret_wh s)
                      (fmul (delta_energy_ret_integrate_wh s) k)
      in s\<lparr> net_metered_energy_wh := net,
             net_metered_energy_ret_wh := net_ret,
             net_metered_energy_handle := setValue net (net_metered_energy_handle s),
             net_metered_energy_ret_handle := setValue net_ret (net_metered_energy_ret_handle s),
             baseline_total_energy_wh := t,
             baseline_total_energy_ret_wh := r,
             delta_energy_integrate_wh := lit 0,
             delta_energy_ret_integrate_wh := lit 0,
             totals_changed_since_last_correction := False,
             last_correction_uptime_ms := now,
             last_integration_uptime_ms := Some now \<rparr>)"
proof -
  from assms(2) have "\<not> js_lt (fsub (ms now) (ms (totals_last_change_uptime_ms s))) (lit 5000)"
    by (simp add: js_ge_def elapsed_def js_le_not_lt)
  with assms(1) show ?thesis by (simp add: applyCorrectionIfReady_def Let_def)
qed

lemma applyCorrectionIfReady_skips:
  assumes "\<not> totals_changed_since_last_correction s
           \<or> \<not> js_ge (elapsed (totals_last_change_uptime_ms s) now) (lit 5000)"
  shows "applyCorrectionIfReady t r now s = s"
proof -
  from elapsed_finite [of now "totals_last_change_uptime_ms s"]
  obtain d where "fsub (ms now) (ms (totals_last_change_uptime_ms s)) = Fin d" by blast
  with assms show ?thesis
    by (auto simp: applyCorrectionIfReady_def js_ge_def elapsed_def lit_def)
qed

text \<open>
  C2. When a correction fires, the two accumulators grow by the window components times
  one factor \<open>k\<close>. This \<open>k\<close> is a finite number in [0.1, 10]. It is the quotient of
  the reference delta by the integrated delta, clamped to [0.1, 10], when the integrated
  delta is finite and exceeds 0.001 Wh in absolute value and the quotient is finite and
  exceeds 0.001; it is 1 in every other case.
\<close>

theorem correction_scale_factor:
  assumes "totals_changed_since_last_correction s"
      and "js_ge (elapsed (totals_last_change_uptime_ms s) now) (lit 5000)"
      and "ref_delta = fsub (fsub (toNumber t) (toNumber (baseline_total_energy_wh s)))
                            (fsub (toNumber r) (toNumber (baseline_total_energy_ret_wh s)))"
      and "int_delta = fsub (delta_energy_integrate_wh s) (delta_energy_ret_integrate_wh s)"
      and "s' = applyCorrectionIfReady t r now s"
  shows "\<exists>k. net_metered_energy_wh s'
               = fadd (net_metered_energy_wh s) (fmul (delta_energy_integrate_wh s) (Fin k))
           \<and> net_metered_energy_ret_wh s'
               = fadd (net_metered_energy_ret_wh s)
                   (fmul (delta_energy_ret_integrate_wh s) (Fin k))
           \<and> Fin k = correctionFactor ref_delta int_delta
           \<and> js_le (lit 0.1) (Fin k) \<and> js_le (Fin k) (lit 10)
           \<and> 1 / 10 \<le> val k \<and> val k \<le> 10
           \<and> Fin k = (if isNumber (JNumber int_delta) \<and> js_gt (fabs int_delta) (lit 0.001)
                         \<and> isNumber (JNumber (fdiv ref_delta int_delta))
                         \<and> js_gt (fdiv ref_delta int_delta) (lit 0.001)
                      then clampMinMax (fdiv ref_delta int_delta) (lit 0.1) (lit 10)
                      else lit 1)"
proof -
  from correctionFactor_finite [of ref_delta int_delta]
  obtain k where k: "correctionFactor ref_delta int_delta = Fin k" "1 / 10 \<le> val k" "val k \<le> 10"
    by blast
  have "net_metered_energy_wh s'
          = fadd (net_metered_energy_wh s) (fmul (delta_energy_integrate_wh s) (Fin k))"
    using assms k(1) by (simp add: applyCorrectionIfReady_fires Let_def)
  moreover have "net_metered_energy_ret_wh s'
          = fadd (net_metered_energy_ret_wh s) (fmul (delta_energy_ret_integrate_wh s) (Fin k))"
    using assms k(1) by (simp add: applyCorrectionIfReady_fires Let_def)
  moreover have "js_le (lit 0.1) (Fin k) \<and> js_le (Fin k) (lit 10)"
    using correctionFactor_bounds [of ref_delta int_delta] by (simp only: k(1))
  moreover have "Fin k = (if isNumber (JNumber int_delta) \<and> js_gt (fabs int_delta) (lit 0.001)
                         \<and> isNumber (JNumber (fdiv ref_delta int_delta))
                         \<and> js_gt (fdiv ref_delta int_delta) (lit 0.001)
                      then clampMinMax (fdiv ref_delta int_delta) (lit 0.1) (lit 10)
                      else lit 1)"
    using correctionFactor_cases [of ref_delta int_delta] by (simp only: k(1))
  ultimately show ?thesis using k by metis
qed

text \<open>
  C5. \<open>applyCorrectionIfReady\<close> changes the state exactly when a change of the totals
  is pending and at least 5000 ms have passed since the last recorded change; when
  either condition fails it returns the state as it was.
\<close>

theorem correction_debounce:
  "(applyCorrectionIfReady t r now s \<noteq> s)
     = (totals_changed_since_last_correction s
        \<and> js_ge (elapsed (totals_last_change_uptime_ms s) now) (lit 5000))"
proof (cases "totals_changed_since_last_correction s
              \<and> js_ge (elapsed (totals_last_change_uptime_ms s) now) (lit 5000)")
  case True
  then have "\<not> totals_changed_since_last_correction (applyCorrectionIfReady t r now s)"
    by (simp add: applyCorrectionIfReady_fires Let_def)
  with True show ?thesis by auto
next
  case False
  then have "applyCorrectionIfReady t r now s = s"
    by (intro applyCorrectionIfReady_skips) auto
  with False show ?thesis by simp
qed

theorem correction_debounce_witness:
  "applyCorrectionIfReady (Some (dbl 6000)) (Some (dbl 250)) 65000 demo_pending \<noteq> demo_pending
   \<and> applyCorrectionIfReady (Some (dbl 6000)) (Some (dbl 250)) 64999 demo_pending = demo_pending
   \<and> applyCorrectionIfReady (Some (dbl 6000)) (Some (dbl 250)) 65000
        (demo_pending\<lparr> totals_changed_since_last_correction := False \<rparr>)
       = demo_pending\<lparr> totals_changed_since_last_correction := False \<rparr>"
  using correction_debounce [of "Some (dbl 6000)" "Some (dbl 250)" 65000 demo_pending]
        correction_debounce [of "Some (dbl 6000)" "Some (dbl 250)" 64999 demo_pending]
        correction_debounce [of "Some (dbl 6000)" "Some (dbl 250)" 65000
                               "demo_pending\<lparr> totals_changed_since_last_correction := False \<rparr>"]
  by (simp add: demo_pending_def ms_def whole_numbers)

section \<open>The integration tick\<close>

lemma readTotalPowerW_absent: "power_absent em \<Longrightarrow> readTotalPowerW em = None"
  by (simp add: power_absent_def readTotalPowerW_def split: option.splits)

lemma readTotalPowerW_present:
  "readTotalPowerW (Some \<lparr> total_act_power = JNumber (Fin p) \<rparr>) = Some p"
  by (simp add: readTotalPowerW_def)

text \<open>
  C3, as stated, fails: on the second tick of a run, 500 ms after the first, with the
  power sample absent, the tick is not a no-op: it moves the anchor
  \<open>last_integration_uptime_ms\<close> from 0 to 500.
\<close>

theorem integratePower_absent_power_moves_anchor:
  "last_integration_uptime_ms (integratePower 0 None init_state) = Some 0
   \<and> power_absent None
   \<and> integratePower 500 None (integratePower 0 None init_state)
        \<noteq> integratePower 0 None init_state
   \<and> last_integration_uptime_ms (integratePower 500 None (integratePower 0 None init_state))
        = Some 500"
  by (simp add: integratePower_def init_state_def power_absent_def readTotalPowerW_def
        ms_def whole_numbers)

text \<open>
  C3, amended. On a fast tick after the first: when the elapsed time since the previous
  tick is at most 0, the tick leaves the whole state unchanged; when the elapsed time is
  positive and the power sample is absent, the tick sets the anchor
  \<open>last_integration_uptime_ms\<close> to the current uptime and leaves the integration window
  and all other state unchanged. No error is raised in either case.
\<close>

theorem integratePower_skipped_tick:
  assumes "last_integration_uptime_ms s = Some prev"
  shows "(js_le (elapsed prev now) (lit 0) \<longrightarrow> integratePower now em s = s)
       \<and> (js_gt (elapsed prev now) (lit 0) \<and> power_absent em \<longrightarrow>
            integratePower now em s = s\<lparr> last_integration_uptime_ms := Some now \<rparr>)"
proof -
  from elapsed_finite [of now prev] obtain d where "fsub (ms now) (ms prev) = Fin d" by blast
  then have "js_gt (elapsed prev now) (lit 0) = (\<not> js_le (elapsed prev now) (lit 0))"
    by (auto simp: elapsed_def js_gt_def lit_def)
  with assms show ?thesis
    by (simp add: integratePower_def Let_def readTotalPowerW_absent elapsed_def)
qed

theorem integratePower_skipped_tick_witness:
  "last_integration_uptime_ms (demo_pending) = Some 64500
   \<and> js_le (elapsed 64500 64500) (lit 0)
   \<and> integratePower 64500 (Some \<lparr> total_act_power = JNumber (lit 230) \<rparr>) demo_pending
       = demo_pending
   \<and> js_gt (elapsed 64500 65000) (lit 0)
   \<and> power_absent (Some \<lparr> total_act_power = JNumber NaN \<rparr>)
   \<and> integratePower 65000 (Some \<lparr> total_act_power = JNumber NaN \<rparr>) demo_pending
       = demo_pending\<lparr> last_integration_uptime_ms := Some 65000 \<rparr>"
proof -
  have a: "last_integration_uptime_ms (demo_pending) = Some 64500"
    by (simp add: demo_pending_def)
  have b: "power_absent (Some \<lparr> total_act_power = JNumber NaN \<rparr>)"
    by (simp add: power_absent_def)
  have c: "js_le (elapsed 64500 64500) (lit 0)" "js_gt (elapsed 64500 65000) (lit 0)"
    by (simp_all add: ms_def whole_numbers)
  from integratePower_skipped_tick
         [OF a, of 64500 "Some \<lparr> total_act_power = JNumber (lit 230) \<rparr>"]
       integratePower_skipped_tick
         [OF a, of 65000 "Some \<lparr> total_act_power = JNumber NaN \<rparr>"]
       a b c
  show ?thesis by simp
qed

section \<open>What each function leaves alone\<close>

lemma integratePower_frame:
  "net_metered_energy_wh (integratePower now em s) = net_metered_energy_wh s"
  "net_metered_energy_ret_wh (integratePower now em s) = net_metered_energy_ret_wh s"
  "net_metered_energy_handle (integratePower now em s) = net_metered_energy_handle s"
  "net_metered_energy_ret_handle (integratePower now em s) = net_metered_energy_ret_handle s"
  "baseline_total_energy_wh (integratePower now em s) = baseline_total_energy_wh s"
  "baseline_total_energy_ret_wh (integratePower now em s) = baseline_total_energy_ret_wh s"
  "last_seen_total_energy_wh (integratePower now em s) = last_seen_total_energy_wh s"
  "last_seen_total_energy_ret_wh (integratePower now em s) = last_seen_total_energy_ret_wh s"
  "totals_changed_since_last_correction (integratePower now em s)
     = totals_changed_since_last_correction s"
  "totals_last_change_uptime_ms (integratePower now em s) = totals_last_change_uptime_ms s"
  "last_correction_uptime_ms (integratePower now em s) = last_correction_uptime_ms s"
  "current_total_energy_wh (integratePower now em s) = current_total_energy_wh s"
  "current_total_energy_ret_wh (integratePower now em s) = current_total_energy_ret_wh s"
  by (simp_all add: integratePower_def Let_def split: option.splits)

text \<open>
  What a tick does to the window: nothing, or it adds a number that is at least 0 to
  exactly one component.
\<close>

lemma integratePower_window:
  "(delta_energy_integrate_wh (integratePower now em s) = delta_energy_integrate_wh s
    \<and> delta_energy_ret_integrate_wh (integratePower now em s) = delta_energy_ret_integrate_wh s)
   \<or> (\<exists>w. nonneg w
        \<and> delta_energy_integrate_wh (integratePower now em s)
            = fadd (delta_energy_integrate_wh s) w
        \<and> delta_energy_ret_integrate_wh (integratePower now em s)
            = delta_energy_ret_integrate_wh s)
   \<or> (\<exists>w. nonneg w
        \<and> delta_energy_integrate_wh (integratePower now em s) = delta_energy_integrate_wh s
        \<and> delta_energy_ret_integrate_wh (integratePower now em s)
            = fadd (delta_energy_ret_integrate_wh s) w)"
proof (cases "last_integration_uptime_ms s")
  case None
  then show ?thesis by (simp add: integratePower_def)
next
  case (Some prev)
  show ?thesis
  proof (cases "js_le (fsub (ms now) (ms prev)) (lit 0)")
    case True
    with Some show ?thesis by (simp add: integratePower_def)
  next
    case pos: False
    show ?thesis
    proof (cases "readTotalPowerW em")
      case None
      with Some pos show ?thesis by (simp add: integratePower_def)
    next
      case (Some p)
      let ?wh = "fmul (Fin p) (fdiv (fsub (ms now) (ms prev)) (lit 3600000))"
      show ?thesis
      proof (cases "js_ge ?wh (lit 0)")
        case True
        then have "nonneg ?wh" by (simp add: js_ge_nonneg)
        with True Some pos \<open>last_integration_uptime_ms s = Some prev\<close> show ?thesis
          by (auto simp: integratePower_def Let_def)
      next
        case False
        from fneg_nonneg [OF False energy_not_NaN [OF pos]] have "nonneg (fneg ?wh)" .
        with False Some pos \<open>last_integration_uptime_ms s = Some prev\<close> show ?thesis
          by (auto simp: integratePower_def Let_def)
      qed
    qed
  qed
qed

lemma integratePower_never_lowers:
  "\<not> js_lt (delta_energy_integrate_wh (integratePower now em s)) (delta_energy_integrate_wh s)
   \<and> \<not> js_lt (delta_energy_ret_integrate_wh (integratePower now em s))
          (delta_energy_ret_integrate_wh s)
   \<and> (delta_energy_integrate_wh (integratePower now em s) = delta_energy_integrate_wh s
       \<or> delta_energy_ret_integrate_wh (integratePower now em s)
            = delta_energy_ret_integrate_wh s)"
proof -
  have irrefl: "\<not> js_lt x x" for x by (cases x) simp_all
  from integratePower_window [of now em s] show ?thesis
    by (auto simp: irrefl fadd_never_lowers)
qed

lemma integratePower_grows:
  assumes "window_nonneg s"
  shows "js_le (delta_energy_integrate_wh s) (delta_energy_integrate_wh (integratePower now em s))
       \<and> js_le (delta_energy_ret_integrate_wh s)
           (delta_energy_ret_integrate_wh (integratePower now em s))"
proof -
  from assms have a: "js_lt NInf (delta_energy_integrate_wh s)"
      "js_lt NInf (delta_energy_ret_integrate_wh s)"
    by (simp_all add: window_nonneg_def nonneg_above_NInf)
  from integratePower_window [of now em s] a show ?thesis
    by (auto simp: js_le_refl fadd_grows)
qed

lemma integratePower_nonneg:
  assumes "window_nonneg s"
  shows "window_nonneg (integratePower now em s)"
  using integratePower_grows [OF assms, of now em] assms
  unfolding window_nonneg_def nonneg_def by (blast intro: js_le_trans)

lemma readTotalsWh_frame:
  "net_metered_energy_wh (snd (readTotalsWh emd s)) = net_metered_energy_wh s"
  "net_metered_energy_ret_wh (snd (readTotalsWh emd s)) = net_metered_energy_ret_wh s"
  "delta_energy_integrate_wh (snd (readTotalsWh emd s)) = delta_energy_integrate_wh s"
  "delta_energy_ret_integrate_wh (snd (readTotalsWh emd s)) = delta_energy_ret_integrate_wh s"
  by (simp_all add: readTotalsWh_def split: option.splits)

lemma startBaselineIfNeeded_net:
  "net_metered_energy_wh (startBaselineIfNeeded t r u1 u2 s) = net_metered_energy_wh s"
  "net_metered_energy_ret_wh (startBaselineIfNeeded t r u1 u2 s) = net_metered_energy_ret_wh s"
  by (simp_all add: startBaselineIfNeeded_def)

lemma startBaselineIfNeeded_window:
  "(delta_energy_integrate_wh (startBaselineIfNeeded t r u1 u2 s) = delta_energy_integrate_wh s
    \<and> delta_energy_ret_integrate_wh (startBaselineIfNeeded t r u1 u2 s)
         = delta_energy_ret_integrate_wh s)
   \<or> (delta_energy_integrate_wh (startBaselineIfNeeded t r u1 u2 s) = lit 0
    \<and> delta_energy_ret_integrate_wh (startBaselineIfNeeded t r u1 u2 s) = lit 0)"
  by (simp add: startBaselineIfNeeded_def)

lemma startBaselineIfNeeded_nonneg:
  "window_nonneg s \<Longrightarrow> window_nonneg (startBaselineIfNeeded t r u1 u2 s)"
  using startBaselineIfNeeded_window [of t r u1 u2 s] nonneg_lit_0
  unfolding window_nonneg_def by auto

lemma updateTotalsChangeDetection_frame:
  "net_metered_energy_wh (updateTotalsChangeDetection t r u s) = net_metered_energy_wh s"
  "net_metered_energy_ret_wh (updateTotalsChangeDetection t r u s) = net_metered_energy_ret_wh s"
  "delta_energy_integrate_wh (updateTotalsChangeDetection t r u s) = delta_energy_integrate_wh s"
  "delta_energy_ret_integrate_wh (updateTotalsChangeDetection t r u s)
     = delta_energy_ret_integrate_wh s"
  by (simp_all add: updateTotalsChangeDetection_def)

lemma applyCorrectionIfReady_window:
  "(delta_energy_integrate_wh (applyCorrectionIfReady t r now s) = delta_energy_integrate_wh s
    \<and> delta_energy_ret_integrate_wh (applyCorrectionIfReady t r now s)
         = delta_energy_ret_integrate_wh s)
   \<or> (delta_energy_integrate_wh (applyCorrectionIfReady t r now s) = lit 0
    \<and> delta_energy_ret_integrate_wh (applyCorrectionIfReady t r now s) = lit 0)"
  by (simp add: applyCorrectionIfReady_def Let_def)

lemma applyCorrectionIfReady_nonneg:
  "window_nonneg s \<Longrightarrow> window_nonneg (applyCorrectionIfReady t r now s)"
  using applyCorrectionIfReady_window [of t r now s] nonneg_lit_0
  unfolding window_nonneg_def by auto

lemma scaled_nonneg: "nonneg d \<Longrightarrow> nonneg (fmul d (correctionFactor a b))"
proof -
  assume d: "nonneg d"
  from correctionFactor_finite [of a b]
  obtain k where k: "correctionFactor a b = Fin k" "1 / 10 \<le> val k" by blast
  then have "0 < val k" by simp
  from fmul_nonneg [OF d this] k(1) show ?thesis by simp
qed

text \<open>
  What \<open>applyCorrectionIfReady\<close> does to the accumulators: nothing, or it adds to each
  the window component times the scale factor.
\<close>

lemma applyCorrectionIfReady_net:
  "applyCorrectionIfReady t r now s = s
   \<or> (\<exists>k. k = correctionFactor
               (fsub (fsub (toNumber t) (toNumber (baseline_total_energy_wh s)))
                     (fsub (toNumber r) (toNumber (baseline_total_energy_ret_wh s))))
               (fsub (delta_energy_integrate_wh s) (delta_energy_ret_integrate_wh s))
        \<and> net_metered_energy_wh (applyCorrectionIfReady t r now s)
            = fadd (net_metered_energy_wh s) (fmul (delta_energy_integrate_wh s) k)
        \<and> net_metered_energy_ret_wh (applyCorrectionIfReady t r now s)
            = fadd (net_metered_energy_ret_wh s) (fmul (delta_energy_ret_integrate_wh s) k))"
proof (cases "totals_changed_since_last_correction s
              \<and> js_ge (elapsed (totals_last_change_uptime_ms s) now) (lit 5000)")
  case True
  then show ?thesis by (simp add: applyCorrectionIfReady_fires Let_def)
next
  case False
  then have "applyCorrectionIfReady t r now s = s"
    by (intro applyCorrectionIfReady_skips) auto
  then show ?thesis ..
qed

lemma applyCorrectionIfReady_mono:
  assumes "window_nonneg s" and "accumulators_defined s"
  shows "js_le (net_metered_energy_wh s) (net_metered_energy_wh (applyCorrectionIfReady t r now s))
       \<and> js_le (net_metered_energy_ret_wh s)
           (net_metered_energy_ret_wh (applyCorrectionIfReady t r now s))
       \<and> accumulators_defined (applyCorrectionIfReady t r now s)"
proof -
  from assms(2) have d: "js_lt NInf (net_metered_energy_wh s)"
      "js_lt NInf (net_metered_energy_ret_wh s)"
    by (simp_all add: accumulators_defined_def)
  from applyCorrectionIfReady_net [of t r now s] show ?thesis
  proof
    assume "applyCorrectionIfReady t r now s = s"
    with assms(2) d show ?thesis by (simp add: js_le_refl)
  next
    assume "\<exists>k. k = correctionFactor
               (fsub (fsub (toNumber t) (toNumber (baseline_total_energy_wh s)))
                     (fsub (toNumber r) (toNumber (baseline_total_energy_ret_wh s))))
               (fsub (delta_energy_integrate_wh s) (delta_energy_ret_integrate_wh s))
        \<and> net_metered_energy_wh (applyCorrectionIfReady t r now s)
            = fadd (net_metered_energy_wh s) (fmul (delta_energy_integrate_wh s) k)
        \<and> net_metered_energy_ret_wh (applyCorrectionIfReady t r now s)
            = fadd (net_metered_energy_ret_wh s) (fmul (delta_energy_ret_integrate_wh s) k)"
    then obtain a b where
      n: "net_metered_energy_wh (applyCorrectionIfReady t r now s)
            = fadd (net_metered_energy_wh s)
                (fmul (delta_energy_integrate_wh s) (correctionFactor a b))"
         "net_metered_energy_ret_wh (applyCorrectionIfReady t r now s)
            = fadd (net_metered_energy_ret_wh s)
                (fmul (delta_energy_ret_integrate_wh s) (correctionFactor a b))"
      by blast
    from assms(1) have "nonneg (fmul (delta_energy_integrate_wh s) (correctionFactor a b))"
        "nonneg (fmul (delta_energy_ret_integrate_wh s) (correctionFactor a b))"
      by (simp_all add: window_nonneg_def scaled_nonneg)
    from fadd_grows [OF this(1) d(1)] fadd_grows [OF this(2) d(2)] n show ?thesis
      by (simp add: accumulators_defined_def)
  qed
qed

lemma totalsTick_unfold:
  "totalsTick e s =
     (if fst (readTotalsWh (emdata e) s)
      then applyCorrectionIfReady
             (current_total_energy_wh (snd (readTotalsWh (emdata e) s)))
             (current_total_energy_ret_wh (snd (readTotalsWh (emdata e) s)))
             (up_correct e)
             (updateTotalsChangeDetection
                (current_total_energy_wh (snd (readTotalsWh (emdata e) s)))
                (current_total_energy_ret_wh (snd (readTotalsWh (emdata e) s)))
                (up_detect e)
                (startBaselineIfNeeded
                   (current_total_energy_wh (snd (readTotalsWh (emdata e) s)))
                   (current_total_energy_ret_wh (snd (readTotalsWh (emdata e) s)))
                   (up_baseline1 e) (up_baseline2 e)
                   (snd (readTotalsWh (emdata e) s))))
      else s)"
proof (cases "readTotalsWh (emdata e) s")
  case (Pair ok s0)
  have cur: "current_total_energy_wh (startBaselineIfNeeded t r u1 u2 x) = current_total_energy_wh x"
            "current_total_energy_ret_wh (startBaselineIfNeeded t r u1 u2 x)
               = current_total_energy_ret_wh x"
            "current_total_energy_wh (updateTotalsChangeDetection t r u x) = current_total_energy_wh x"
            "current_total_energy_ret_wh (updateTotalsChangeDetection t r u x)
               = current_total_energy_ret_wh x"
    for t r u1 u2 u x
    by (simp_all add: startBaselineIfNeeded_def updateTotalsChangeDetection_def)
  have "\<not> ok \<Longrightarrow> s0 = s"
    using Pair by (auto simp: readTotalsWh_def split: option.splits if_splits)
  with Pair show ?thesis
    by (cases ok) (simp_all add: totalsTick_def Let_def cur)
qed

lemma totalsTick_invariant:
  assumes "window_nonneg s" and "accumulators_defined s"
  shows "window_nonneg (totalsTick e s) \<and> accumulators_defined (totalsTick e s)
       \<and> js_le (net_metered_energy_wh s) (net_metered_energy_wh (totalsTick e s))
       \<and> js_le (net_metered_energy_ret_wh s) (net_metered_energy_ret_wh (totalsTick e s))"
proof (cases "fst (readTotalsWh (emdata e) s)")
  case False
  with assms show ?thesis
    by (simp add: totalsTick_unfold accumulators_defined_def js_le_refl)
next
  case True
  let ?s0 = "snd (readTotalsWh (emdata e) s)"
  let ?t = "current_total_energy_wh ?s0"
  let ?r = "current_total_energy_ret_wh ?s0"
  let ?s1 = "startBaselineIfNeeded ?t ?r (up_baseline1 e) (up_baseline2 e) ?s0"
  let ?s2 = "updateTotalsChangeDetection ?t ?r (up_detect e) ?s1"
  have "window_nonneg ?s0"
    using assms(1) by (simp add: window_nonneg_def readTotalsWh_frame)
  then have "window_nonneg ?s1"
    by (rule startBaselineIfNeeded_nonneg)
  then have inv2: "window_nonneg ?s2"
    by (simp add: window_nonneg_def updateTotalsChangeDetection_frame)
  have net2: "net_metered_energy_wh ?s2 = net_metered_energy_wh s"
             "net_metered_energy_ret_wh ?s2 = net_metered_energy_ret_wh s"
    by (simp_all add: updateTotalsChangeDetection_frame startBaselineIfNeeded_net
          readTotalsWh_frame)
  with assms(2) have def2: "accumulators_defined ?s2"
    by (simp add: accumulators_defined_def)
  from applyCorrectionIfReady_mono [OF inv2 def2, of ?t ?r "up_correct e"]
       applyCorrectionIfReady_nonneg [OF inv2, of ?t ?r "up_correct e"] net2 True
  show ?thesis by (simp add: totalsTick_unfold)
qed

lemma step_invariant:
  assumes "window_nonneg s" and "accumulators_defined s"
  shows "window_nonneg (step s ev) \<and> accumulators_defined (step s ev)
       \<and> js_le (net_metered_energy_wh s) (net_metered_energy_wh (step s ev))
       \<and> js_le (net_metered_energy_ret_wh s) (net_metered_energy_ret_wh (step s ev))"
proof (cases ev)
  case (Fast now em)
  with assms integratePower_nonneg [OF assms(1), of now em] show ?thesis
    by (simp add: integrationTick_def integratePower_frame accumulators_defined_def js_le_refl)
next
  case (Slow e)
  with totalsTick_invariant [OF assms, of e] show ?thesis by simp
qed

lemma run_append: "run s (xs @ ys) = run (run s xs) ys"
  by (induction xs arbitrary: s) simp_all

lemma run_invariant:
  "window_nonneg s \<Longrightarrow> accumulators_defined s \<Longrightarrow>
     window_nonneg (run s evs) \<and> accumulators_defined (run s evs)
     \<and> js_le (net_metered_energy_wh s) (net_metered_energy_wh (run s evs))
     \<and> js_le (net_metered_energy_ret_wh s) (net_metered_energy_ret_wh (run s evs))"
proof (induction evs arbitrary: s)
  case Nil
  then show ?case by (simp add: accumulators_defined_def js_le_refl)
next
  case (Cons ev evs)
  note one = step_invariant [OF Cons.prems, of ev]
  from one have "window_nonneg (step s ev)" "accumulators_defined (step s ev)" by simp_all
  from Cons.IH [OF this] one show ?case
    by (auto intro: js_le_trans)
qed

lemma loadPersisted_window:
  "delta_energy_integrate_wh (loadPersisted virt s) = delta_energy_integrate_wh s"
  "delta_energy_ret_integrate_wh (loadPersisted virt s) = delta_energy_ret_integrate_wh s"
  by (simp_all add: loadPersisted_def Let_def)

lemma loadPersisted_finite:
  "\<exists>a b. net_metered_energy_wh (loadPersisted virt s) = Fin a
       \<and> net_metered_energy_ret_wh (loadPersisted virt s) = Fin b"
proof -
  have "\<exists>a. (if isNumber v then toNumber (numval v) else lit 0) = Fin a" for v
    by (cases v rule: isNumber.cases) (simp_all add: lit_def)
  then show ?thesis
    by (auto simp: loadPersisted_def Let_def lit_def split: option.splits)
qed

lemma start_unfold:
  "start virt e =
     (if fst (readTotalsWh (emdata e) (loadPersisted virt init_state))
      then startBaselineIfNeeded
             (current_total_energy_wh (snd (readTotalsWh (emdata e) (loadPersisted virt init_state))))
             (current_total_energy_ret_wh (snd (readTotalsWh (emdata e) (loadPersisted virt init_state))))
             (up_baseline1 e) (up_baseline2 e)
             (snd (readTotalsWh (emdata e) (loadPersisted virt init_state)))
      else loadPersisted virt init_state)"
proof (cases "readTotalsWh (emdata e) (loadPersisted virt init_state)")
  case (Pair ok s0)
  have "\<not> ok \<Longrightarrow> s0 = loadPersisted virt init_state"
    using Pair by (auto simp: readTotalsWh_def split: option.splits if_splits)
  with Pair show ?thesis
    by (cases ok) (simp_all add: start_def Let_def)
qed

lemma start_invariant: "window_nonneg (start virt e) \<and> accumulators_defined (start virt e)"
proof -
  let ?l = "loadPersisted virt init_state"
  have w: "window_nonneg ?l"
    by (simp add: window_nonneg_def loadPersisted_window init_state_def nonneg_lit_0)
  then have w0: "window_nonneg (snd (readTotalsWh (emdata e) ?l))"
    by (simp add: window_nonneg_def readTotalsWh_frame)
  from loadPersisted_finite [of virt init_state] have a: "accumulators_defined ?l"
    by (auto simp: accumulators_defined_def)
  from w w0 a show ?thesis
    by (simp add: start_unfold startBaselineIfNeeded_nonneg accumulators_defined_def
          startBaselineIfNeeded_net readTotalsWh_frame)
qed

section \<open>The worked run, evaluated\<close>

text \<open>The roundings the worked run meets, each at its exponent.\<close>

lemma at_half:
  "to_number (1 / 2) = Fin (dbl (1 / 2))
   \<and> val (dbl (1 / 2)) = 1 / 2
   \<and> val (dbl (1 / 2)) = 1 / 2"
  by (rule to_number_at [of "- 53"]) (simp_all add: round_half_even_def)

lemma at_095:
  "to_number (19 / 20) = Fin (dbl (4278419646001971 / 4503599627370496))
   \<and> val (dbl (4278419646001971 / 4503599627370496)) = 4278419646001971 / 4503599627370496
   \<and> val (dbl (19 / 20)) = 4278419646001971 / 4503599627370496"
  by (rule to_number_at [of "- 53"]) (simp_all add: round_half_even_def)

lemma at_1000_095:
  "to_number (534802455750246375 / 562949953421312) = Fin (dbl 950)
   \<and> val (dbl 950) = 950
   \<and> val (dbl (534802455750246375 / 562949953421312)) = 950"
  by (rule to_number_at [of "- 43"]) (simp_all add: round_half_even_def)

lemma at_thousandth:
  "to_number (1 / 1000) = Fin (dbl (1152921504606847 / 1152921504606846976))
   \<and> val (dbl (1152921504606847 / 1152921504606846976)) = 1152921504606847 / 1152921504606846976
   \<and> val (dbl (1 / 1000)) = 1152921504606847 / 1152921504606846976"
  by (rule to_number_at [of "- 62"]) (simp_all add: round_half_even_def)

lemmas demo_values = at_half at_095 at_1000_095 at_thousandth val_tenth

lemma cf_normal: "correctionFactor (Fin (dbl 950)) (Fin (dbl 1000)) = lit 0.95"
  by (simp add: correctionFactor_cases clampMinMax_def whole_numbers demo_values)

lemma demo_started_eq:
  "demo_started =
     init_state\<lparr> net_metered_energy_handle := demo_virt NET_METERED_ENERGY_KEY,
                 net_metered_energy_ret_handle := demo_virt NET_METERED_ENERGY_RET_KEY,
                 net_metered_energy_wh := lit 100,
                 net_metered_energy_ret_wh := lit 40,
                 baseline_total_energy_wh := Some (dbl 5000),
                 baseline_total_energy_ret_wh := Some (dbl 200),
                 last_seen_total_energy_wh := Some (dbl 5000),
                 last_seen_total_energy_ret_wh := Some (dbl 200),
                 current_total_energy_wh := Some (dbl 5000),
                 current_total_energy_ret_wh := Some (dbl 200) \<rparr>"
  by (simp add: demo_started_def start_def loadPersisted_def readTotalsWh_def
        startBaselineIfNeeded_def demo_totals_def demo_counters_def demo_virt_def
        init_state_def NET_METERED_ENERGY_KEY_def NET_METERED_ENERGY_RET_KEY_def Let_def
        lit_def)

lemma demo_hour_eq:
  "run demo_started demo_hour =
     demo_started\<lparr> delta_energy_integrate_wh := lit 1000,
                   last_integration_uptime_ms := Some 3600000,
                   totals_changed_since_last_correction := True,
                   totals_last_change_uptime_ms := 3600000,
                   last_seen_total_energy_wh := Some (dbl 6000),
                   last_seen_total_energy_ret_wh := Some (dbl 250),
                   current_total_energy_wh := Some (dbl 6000),
                   current_total_energy_ret_wh := Some (dbl 250) \<rparr>"
  unfolding demo_started_eq
  by (simp add: demo_hour_def sample_def integrationTick_def integratePower_def
        readTotalPowerW_def totalsTick_def readTotalsWh_def startBaselineIfNeeded_def
        updateTotalsChangeDetection_def applyCorrectionIfReady_def
        demo_totals_def demo_counters_def init_state_def Let_def
        ms_def whole_numbers demo_values)

lemma demo_settled_eq:
  "run (run demo_started demo_hour) demo_settled =
     demo_started\<lparr> net_metered_energy_wh := lit 1050,
                   net_metered_energy_handle :=
                     Some \<lparr> getStatus = Some \<lparr> st_value = JNumber (lit 1050) \<rparr> \<rparr>,
                   last_integration_uptime_ms := Some 3605000,
                   last_correction_uptime_ms := 3605000,
                   totals_last_change_uptime_ms := 3600000,
                   baseline_total_energy_wh := Some (dbl 6000),
                   baseline_total_energy_ret_wh := Some (dbl 250),
                   last_seen_total_energy_wh := Some (dbl 6000),
                   last_seen_total_energy_ret_wh := Some (dbl 250),
                   current_total_energy_wh := Some (dbl 6000),
                   current_total_energy_ret_wh := Some (dbl 250) \<rparr>"
  unfolding demo_hour_eq unfolding demo_started_eq
  by (simp add: demo_settled_def totalsTick_def readTotalsWh_def startBaselineIfNeeded_def
        updateTotalsChangeDetection_def applyCorrectionIfReady_def cf_normal
        setValue_def demo_virt_def
        NET_METERED_ENERGY_KEY_def NET_METERED_ENERGY_RET_KEY_def
        demo_totals_def demo_counters_def init_state_def Let_def
        ms_def whole_numbers demo_values)

section \<open>The scale factor at work\<close>

text \<open>The scale factor at four inputs: inside the clamp, clamped, and the two fallbacks.\<close>

lemma cf_clamped: "correctionFactor (Fin (dbl 20000)) (Fin (dbl 1000)) = lit 10"
  by (simp add: correctionFactor_cases clampMinMax_def whole_numbers demo_values)

lemma cf_threshold: "correctionFactor (lit 5) (lit 0.001) = lit 1"
  by (simp add: correctionFactor_cases whole_numbers demo_values)

lemma val_demo_huge: "val demo_huge = 2 ^ 1023"
proof -
  have "rnd (2 ^ 1023) = 2 ^ 1023" using rnd_pow2 [of 1023] by simp
  then show ?thesis unfolding demo_huge_def by (rule val_dbl_fixed) simp
qed

lemma val_quarter: "val (dbl (1 / 4)) = 1 / 4"
  by (rule val_dbl_fixed [OF rnd_quarter]) simp

lemma quotient_overflows: "fdiv (Fin demo_huge) (Fin (dbl (1 / 4))) = PInf"
proof -
  have r: "rnd (2 ^ 1025) = 2 ^ 1025" using rnd_pow2 [of 1025] by simp
  have "to_number (2 ^ 1025) = PInf"
    unfolding to_number_def r by simp
  moreover have "val demo_huge / val (dbl (1 / 4)) = 2 ^ 1025"
    unfolding val_demo_huge val_quarter by simp
  ultimately show ?thesis by (simp add: val_quarter)
qed

lemma cf_overflow: "correctionFactor (Fin demo_huge) (Fin (dbl (1 / 4))) = lit 1"
  unfolding correctionFactor_cases quotient_overflows by simp

lemma huge_minus_0: "fsub (fsub (Fin demo_huge) (lit 0)) (fsub (lit 0) (lit 0)) = Fin demo_huge"
proof -
  have "to_number (val demo_huge) = Fin demo_huge"
    using val_bound [of demo_huge] by (simp add: to_number_def rnd_val dbl_val)
  then show ?thesis by (simp add: whole_numbers)
qed

theorem correction_scale_factor_witness:
  "totals_changed_since_last_correction demo_pending
   \<and> js_ge (elapsed (totals_last_change_uptime_ms demo_pending) 65000) (lit 5000)
   \<and> correctionFactor (lit 950) (lit 1000) = lit 0.95
   \<and> net_metered_energy_wh
        (applyCorrectionIfReady (Some (dbl 6000)) (Some (dbl 250)) 65000 demo_pending) = lit 950
   \<and> correctionFactor (lit 20000) (lit 1000) = lit 10
   \<and> net_metered_energy_wh
        (applyCorrectionIfReady (Some (dbl 25050)) (Some (dbl 250)) 65000 demo_pending)
       = lit 10000
   \<and> correctionFactor (Fin demo_huge) (lit 0.25) = lit 1
   \<and> net_metered_energy_wh
        (applyCorrectionIfReady (Some demo_huge) (Some (dbl 0)) 5000 demo_quarter) = lit 0.25
   \<and> correctionFactor (lit 5) (lit 0.001) = lit 1"
proof -
  have a1: "totals_changed_since_last_correction demo_pending"
    by (simp add: demo_pending_def)
  have a2: "js_ge (elapsed (totals_last_change_uptime_ms demo_pending) 65000) (lit 5000)"
    by (simp add: demo_pending_def ms_def whole_numbers)
  have d: "delta_energy_integrate_wh demo_pending = Fin (dbl 1000)"
          "net_metered_energy_wh demo_pending = Fin (dbl 0)"
    by (simp_all add: demo_pending_def init_state_def lit_def)
  have i: "Fin (dbl 1000) = fsub (delta_energy_integrate_wh demo_pending)
                              (delta_energy_ret_integrate_wh demo_pending)"
    by (simp add: demo_pending_def whole_numbers)
  have n: "Fin (dbl 950)
             = fsub (fsub (toNumber (Some (dbl 6000)))
                      (toNumber (baseline_total_energy_wh demo_pending)))
                 (fsub (toNumber (Some (dbl 250)))
                    (toNumber (baseline_total_energy_ret_wh demo_pending)))"
    by (simp add: demo_pending_def whole_numbers)
  have c: "Fin (dbl 20000)
             = fsub (fsub (toNumber (Some (dbl 25050)))
                      (toNumber (baseline_total_energy_wh demo_pending)))
                 (fsub (toNumber (Some (dbl 250)))
                    (toNumber (baseline_total_energy_ret_wh demo_pending)))"
    by (simp add: demo_pending_def whole_numbers)
  have b1: "totals_changed_since_last_correction demo_quarter"
    by (simp add: demo_quarter_def)
  have b2: "js_ge (elapsed (totals_last_change_uptime_ms demo_quarter) 5000) (lit 5000)"
    by (simp add: demo_quarter_def init_state_def ms_def whole_numbers)
  have q: "delta_energy_integrate_wh demo_quarter = Fin (dbl (1 / 4))"
          "net_metered_energy_wh demo_quarter = Fin (dbl 0)"
    by (simp_all add: demo_quarter_def init_state_def lit_def)
  have qi: "Fin (dbl (1 / 4)) = fsub (delta_energy_integrate_wh demo_quarter)
                                  (delta_energy_ret_integrate_wh demo_quarter)"
    by (simp add: demo_quarter_def init_state_def whole_numbers val_quarter to_number_def
          rnd_quarter)
  have qr: "Fin demo_huge
              = fsub (fsub (toNumber (Some demo_huge))
                       (toNumber (baseline_total_energy_wh demo_quarter)))
                  (fsub (toNumber (Some (dbl 0)))
                     (toNumber (baseline_total_energy_ret_wh demo_quarter)))"
    using huge_minus_0 by (simp add: demo_quarter_def init_state_def lit_def)
  from correction_scale_factor [OF a1 a2 n i refl]
  obtain k1 where k1:
    "net_metered_energy_wh
        (applyCorrectionIfReady (Some (dbl 6000)) (Some (dbl 250)) 65000 demo_pending)
       = fadd (net_metered_energy_wh demo_pending)
           (fmul (delta_energy_integrate_wh demo_pending) (Fin k1))"
    "Fin k1 = correctionFactor (Fin (dbl 950)) (Fin (dbl 1000))"
    by blast
  have r1: "net_metered_energy_wh
        (applyCorrectionIfReady (Some (dbl 6000)) (Some (dbl 250)) 65000 demo_pending)
          = fadd (Fin (dbl 0)) (fmul (Fin (dbl 1000)) (lit 0.95))"
    by (simp only: k1 cf_normal d)
  from correction_scale_factor [OF a1 a2 c i refl]
  obtain k2 where k2:
    "net_metered_energy_wh
        (applyCorrectionIfReady (Some (dbl 25050)) (Some (dbl 250)) 65000 demo_pending)
       = fadd (net_metered_energy_wh demo_pending)
           (fmul (delta_energy_integrate_wh demo_pending) (Fin k2))"
    "Fin k2 = correctionFactor (Fin (dbl 20000)) (Fin (dbl 1000))"
    by blast
  have r2: "net_metered_energy_wh
        (applyCorrectionIfReady (Some (dbl 25050)) (Some (dbl 250)) 65000 demo_pending)
          = fadd (Fin (dbl 0)) (fmul (Fin (dbl 1000)) (lit 10))"
    by (simp only: k2 cf_clamped d)
  from correction_scale_factor [OF b1 b2 qr qi refl]
  obtain k3 where k3:
    "net_metered_energy_wh
        (applyCorrectionIfReady (Some demo_huge) (Some (dbl 0)) 5000 demo_quarter)
       = fadd (net_metered_energy_wh demo_quarter)
           (fmul (delta_energy_integrate_wh demo_quarter) (Fin k3))"
    "Fin k3 = correctionFactor (Fin demo_huge) (Fin (dbl (1 / 4)))"
    by blast
  have r3: "net_metered_energy_wh
        (applyCorrectionIfReady (Some demo_huge) (Some (dbl 0)) 5000 demo_quarter)
          = fadd (Fin (dbl 0)) (fmul (Fin (dbl (1 / 4))) (lit 1))"
    by (simp only: k3 cf_overflow q)
  have e1: "fadd (Fin (dbl 0)) (fmul (Fin (dbl 1000)) (lit 0.95)) = lit 950"
    by (simp add: whole_numbers demo_values)
  have e2: "fadd (Fin (dbl 0)) (fmul (Fin (dbl 1000)) (lit 10)) = lit 10000"
    by (simp add: whole_numbers)
  have e3: "fadd (Fin (dbl 0)) (fmul (Fin (dbl (1 / 4))) (lit 1)) = lit 0.25"
    by (simp add: whole_numbers val_quarter to_number_def rnd_quarter)
  from a1 a2 r1 r2 r3 e1 e2 e3 cf_normal cf_clamped cf_overflow cf_threshold
  show ?thesis by (simp add: lit_def)
qed

section \<open>Invariants of every run\<close>

text \<open>
  C7. In every state reached from startup by fast and slow ticks, both components of the
  integration window are at least 0, and an integration tick from such a state leaves
  each component at least as large as it was. In any state at all, an integration tick
  never lowers a component and leaves at least one of the two as it was, and a slow tick
  either keeps the window or resets both components to 0.
\<close>

theorem window_never_negative:
  assumes "s = run (start virt e) evs"
  shows "js_le (lit 0) (delta_energy_integrate_wh s)
   \<and> js_le (lit 0) (delta_energy_ret_integrate_wh s)
   \<and> js_le (delta_energy_integrate_wh s) (delta_energy_integrate_wh (integratePower now em s))
   \<and> js_le (delta_energy_ret_integrate_wh s)
        (delta_energy_ret_integrate_wh (integratePower now em s))
   \<and> \<not> js_lt (delta_energy_integrate_wh (integratePower now em u)) (delta_energy_integrate_wh u)
   \<and> \<not> js_lt (delta_energy_ret_integrate_wh (integratePower now em u))
          (delta_energy_ret_integrate_wh u)
   \<and> (delta_energy_integrate_wh (integratePower now em u) = delta_energy_integrate_wh u
       \<or> delta_energy_ret_integrate_wh (integratePower now em u)
            = delta_energy_ret_integrate_wh u)
   \<and> ((delta_energy_integrate_wh (totalsTick te u) = delta_energy_integrate_wh u
        \<and> delta_energy_ret_integrate_wh (totalsTick te u) = delta_energy_ret_integrate_wh u)
       \<or> (delta_energy_integrate_wh (totalsTick te u) = lit 0
        \<and> delta_energy_ret_integrate_wh (totalsTick te u) = lit 0))"
proof -
  from start_invariant [of virt e]
  have "window_nonneg (start virt e)" "accumulators_defined (start virt e)" by simp_all
  from run_invariant [OF this, of evs] have inv: "window_nonneg s"
    by (simp add: assms)
  then have reach: "js_le (lit 0) (delta_energy_integrate_wh s)
     \<and> js_le (lit 0) (delta_energy_ret_integrate_wh s)"
    by (simp add: window_nonneg_def nonneg_def)
  let ?s0 = "snd (readTotalsWh (emdata te) u)"
  let ?t = "current_total_energy_wh ?s0"
  let ?r = "current_total_energy_ret_wh ?s0"
  let ?s1 = "startBaselineIfNeeded ?t ?r (up_baseline1 te) (up_baseline2 te) ?s0"
  let ?s2 = "updateTotalsChangeDetection ?t ?r (up_detect te) ?s1"
  have slow: "(delta_energy_integrate_wh (totalsTick te u) = delta_energy_integrate_wh u
        \<and> delta_energy_ret_integrate_wh (totalsTick te u) = delta_energy_ret_integrate_wh u)
       \<or> (delta_energy_integrate_wh (totalsTick te u) = lit 0
        \<and> delta_energy_ret_integrate_wh (totalsTick te u) = lit 0)"
  proof (cases "fst (readTotalsWh (emdata te) u)")
    case False
    then show ?thesis by (simp add: totalsTick_unfold)
  next
    case True
    then have tt: "totalsTick te u = applyCorrectionIfReady ?t ?r (up_correct te) ?s2"
      by (simp add: totalsTick_unfold)
    from startBaselineIfNeeded_window [of ?t ?r "up_baseline1 te" "up_baseline2 te" ?s0]
         applyCorrectionIfReady_window [of ?t ?r "up_correct te" ?s2]
    show ?thesis
      unfolding tt by (auto simp: updateTotalsChangeDetection_frame readTotalsWh_frame)
  qed
  from reach integratePower_grows [OF inv, of now em] integratePower_never_lowers [of now em u]
       slow
  show ?thesis by blast
qed

theorem window_never_negative_witness:
  "run demo_started demo_hour
     = run (start demo_virt (demo_totals 0 (demo_counters 5000 200))) demo_hour
   \<and> delta_energy_integrate_wh (run demo_started demo_hour) = lit 1000
   \<and> js_le (lit 0) (delta_energy_integrate_wh (run demo_started demo_hour))
   \<and> js_le (lit 0) (delta_energy_ret_integrate_wh (run demo_started demo_hour))
   \<and> delta_energy_integrate_wh
        (totalsTick (demo_totals 3605000 (demo_counters 6000 250)) (run demo_started demo_hour))
       = lit 0"
proof -
  have r: "run demo_started demo_hour
             = run (start demo_virt (demo_totals 0 (demo_counters 5000 200))) demo_hour"
    by (simp add: demo_started_def)
  have v: "delta_energy_integrate_wh (run demo_started demo_hour) = lit 1000"
    unfolding demo_hour_eq unfolding demo_started_eq by simp
  have w: "totalsTick (demo_totals 3605000 (demo_counters 6000 250)) (run demo_started demo_hour)
             = run (run demo_started demo_hour) demo_settled"
    by (simp add: demo_settled_def)
  have z: "delta_energy_integrate_wh (run (run demo_started demo_hour) demo_settled) = lit 0"
    unfolding demo_settled_eq unfolding demo_started_eq by (simp add: init_state_def)
  from window_never_negative
         [OF r, of 0 None "run demo_started demo_hour"
             "demo_totals 3605000 (demo_counters 6000 250)"]
       r v w z
  show ?thesis by simp
qed

text \<open>
  C1. From every state reached from startup, no further sequence of fast and slow ticks
  lowers \<open>net_metered_energy_wh\<close> or \<open>net_metered_energy_ret_wh\<close>: a correction
  either does nothing or adds the window components times one factor \<open>k\<close>, and both
  added amounts are at least 0.
\<close>

theorem accumulators_never_decrease:
  assumes "s = run (start virt e) evs"
  shows "js_le (net_metered_energy_wh s) (net_metered_energy_wh (run s evs'))
       \<and> js_le (net_metered_energy_ret_wh s) (net_metered_energy_ret_wh (run s evs'))
       \<and> (\<exists>k. js_le (lit 0) (fmul (delta_energy_integrate_wh s) k)
              \<and> js_le (lit 0) (fmul (delta_energy_ret_integrate_wh s) k)
              \<and> (applyCorrectionIfReady t r now s = s
                  \<or> net_metered_energy_wh (applyCorrectionIfReady t r now s)
                       = fadd (net_metered_energy_wh s) (fmul (delta_energy_integrate_wh s) k)
                    \<and> net_metered_energy_ret_wh (applyCorrectionIfReady t r now s)
                       = fadd (net_metered_energy_ret_wh s)
                           (fmul (delta_energy_ret_integrate_wh s) k)))"
proof -
  from start_invariant [of virt e]
  have "window_nonneg (start virt e)" "accumulators_defined (start virt e)" by simp_all
  from run_invariant [OF this, of evs]
  have inv: "window_nonneg s" "accumulators_defined s"
    by (simp_all add: assms)
  let ?k = "correctionFactor
              (fsub (fsub (toNumber t) (toNumber (baseline_total_energy_wh s)))
                    (fsub (toNumber r) (toNumber (baseline_total_energy_ret_wh s))))
              (fsub (delta_energy_integrate_wh s) (delta_energy_ret_integrate_wh s))"
  have pos: "js_le (lit 0) (fmul (delta_energy_integrate_wh s) ?k)"
            "js_le (lit 0) (fmul (delta_energy_ret_integrate_wh s) ?k)"
    using inv(1) scaled_nonneg by (simp_all add: window_nonneg_def nonneg_def)
  from applyCorrectionIfReady_net [of t r now s]
  have "applyCorrectionIfReady t r now s = s
        \<or> net_metered_energy_wh (applyCorrectionIfReady t r now s)
             = fadd (net_metered_energy_wh s) (fmul (delta_energy_integrate_wh s) ?k)
          \<and> net_metered_energy_ret_wh (applyCorrectionIfReady t r now s)
             = fadd (net_metered_energy_ret_wh s) (fmul (delta_energy_ret_integrate_wh s) ?k)"
    by blast
  with pos run_invariant [OF inv, of evs'] show ?thesis by blast
qed

theorem accumulators_never_decrease_witness:
  "run demo_started demo_hour = run (start demo_virt (demo_totals 0 (demo_counters 5000 200))) demo_hour
   \<and> net_metered_energy_wh (run demo_started demo_hour) = lit 100
   \<and> net_metered_energy_wh (run (run demo_started demo_hour) demo_settled) = lit 1050
   \<and> js_le (net_metered_energy_wh (run demo_started demo_hour))
       (net_metered_energy_wh (run (run demo_started demo_hour) demo_settled))
   \<and> js_le (net_metered_energy_ret_wh (run demo_started demo_hour))
       (net_metered_energy_ret_wh (run (run demo_started demo_hour) demo_settled))"
proof -
  have r: "run demo_started demo_hour
             = run (start demo_virt (demo_totals 0 (demo_counters 5000 200))) demo_hour"
    by (simp add: demo_started_def)
  have v: "net_metered_energy_wh (run demo_started demo_hour) = lit 100"
          "net_metered_energy_wh (run (run demo_started demo_hour) demo_settled) = lit 1050"
    unfolding demo_settled_eq unfolding demo_hour_eq unfolding demo_started_eq by simp_all
  from accumulators_never_decrease [OF r, of demo_settled] r v show ?thesis by blast
qed

section \<open>One hour at 1000 W\<close>

lemma fadd_0_right: "fadd x (Fin (dbl 0)) = x"
proof (cases x)
  case (Fin a)
  have "to_number (val a) = Fin a"
    using val_bound [of a] by (simp add: to_number_def rnd_val dbl_val)
  with Fin show ?thesis by (simp add: val_dbl_0)
qed simp_all

text \<open>The roundings of six ticks of ten minutes at 1000 W, each at its exponent.\<close>

lemma sixth:
  "to_number (1 / 6) = Fin (dbl (6004799503160661 / 36028797018963968))
   \<and> val (dbl (6004799503160661 / 36028797018963968)) = 6004799503160661 / 36028797018963968
   \<and> val (dbl (1 / 6)) = 6004799503160661 / 36028797018963968"
  by (rule to_number_at [of "- 55"]) (simp_all add: round_half_even_def)

lemma thousand_sixths:
  "to_number (750599937895082625 / 4503599627370496) = Fin (dbl (5864062014805333 / 35184372088832))
   \<and> val (dbl (5864062014805333 / 35184372088832)) = 5864062014805333 / 35184372088832
   \<and> val (dbl (750599937895082625 / 4503599627370496)) = 5864062014805333 / 35184372088832"
  by (rule to_number_at [of "- 45"]) (simp_all add: round_half_even_def)

lemma six_ticks_1:
  "to_number (5864062014805333 / 35184372088832) = Fin (dbl (5864062014805333 / 35184372088832))
   \<and> val (dbl (5864062014805333 / 35184372088832)) = 5864062014805333 / 35184372088832
   \<and> val (dbl (5864062014805333 / 35184372088832)) = 5864062014805333 / 35184372088832"
  by (rule to_number_at [of "- 45"]) (simp_all add: round_half_even_def)

lemma six_ticks_2:
  "to_number (5864062014805333 / 17592186044416) = Fin (dbl (5864062014805333 / 17592186044416))
   \<and> val (dbl (5864062014805333 / 17592186044416)) = 5864062014805333 / 17592186044416
   \<and> val (dbl (5864062014805333 / 17592186044416)) = 5864062014805333 / 17592186044416"
  by (rule to_number_at [of "- 44"]) (simp_all add: round_half_even_def)

lemma six_ticks_3:
  "to_number (17592186044415999 / 35184372088832) = Fin (dbl (500))
   \<and> val (dbl (500)) = 500
   \<and> val (dbl (17592186044415999 / 35184372088832)) = 500"
  by (rule to_number_at [of "- 44"]) (simp_all add: round_half_even_def)

lemma six_ticks_4:
  "to_number (23456248059221333 / 35184372088832) = Fin (dbl (5864062014805333 / 8796093022208))
   \<and> val (dbl (5864062014805333 / 8796093022208)) = 5864062014805333 / 8796093022208
   \<and> val (dbl (23456248059221333 / 35184372088832)) = 5864062014805333 / 8796093022208"
  by (rule to_number_at [of "- 43"]) (simp_all add: round_half_even_def)

lemma six_ticks_5:
  "to_number (29320310074026665 / 35184372088832) = Fin (dbl (3665038759253333 / 4398046511104))
   \<and> val (dbl (3665038759253333 / 4398046511104)) = 3665038759253333 / 4398046511104
   \<and> val (dbl (29320310074026665 / 35184372088832)) = 3665038759253333 / 4398046511104"
  by (rule to_number_at [of "- 43"]) (simp_all add: round_half_even_def)

lemma six_ticks_6:
  "to_number (35184372088831997 / 35184372088832) = Fin (dbl (8796093022207999 / 8796093022208))
   \<and> val (dbl (8796093022207999 / 8796093022208)) = 8796093022207999 / 8796093022208
   \<and> val (dbl (35184372088831997 / 35184372088832)) = 8796093022207999 / 8796093022208"
  by (rule to_number_at [of "- 43"]) (simp_all add: round_half_even_def)

lemmas six_ticks_values =
  sixth thousand_sixths six_ticks_1 six_ticks_2 six_ticks_3 six_ticks_4 six_ticks_5 six_ticks_6

lemma six_ticks_run:
  "run demo_anchored (map (\<lambda>(now, p). sample now p) hour_in_six) =
     init_state\<lparr> last_integration_uptime_ms := Some 3600000,
                 delta_energy_integrate_wh := Fin (dbl (8796093022207999 / 8796093022208)) \<rparr>"
  by (simp add: demo_anchored_def hour_in_six_def sample_def integrationTick_def
        integratePower_def readTotalPowerW_def init_state_def Let_def
        ms_def whole_numbers six_ticks_values)

lemma six_ticks_factor:
  "to_number (8356288371097600 / 8796093022207999) = Fin (dbl (8556839292003943 / 9007199254740992))
   \<and> val (dbl (8556839292003943 / 9007199254740992)) = 8556839292003943 / 9007199254740992
   \<and> val (dbl (8356288371097600 / 8796093022207999)) = 8556839292003943 / 9007199254740992"
  by (rule to_number_at [of "- 53"]) (simp_all add: round_half_even_def)

lemma cf_six:
  "correctionFactor (lit 950) (Fin (dbl (8796093022207999 / 8796093022208)))
     = Fin (dbl (8556839292003943 / 9007199254740992))"
  by (simp add: correctionFactor_cases clampMinMax_def whole_numbers demo_values
        six_ticks_values six_ticks_factor)

lemma cf_six_ne: "Fin (dbl (8556839292003943 / 9007199254740992)) \<noteq> lit 0.95"
  by (simp add: whole_numbers demo_values six_ticks_factor)

lemma fsub_0_right: "fsub x (lit 0) = x"
  using fadd_0_right [of x] by (simp add: fsub_def lit_def val_dbl_0)

text \<open>
  C6, as stated, fails: 1000 W integrated over exactly 3600000 ms in six ticks of
  600000 ms, from an empty window and with no correction in between, leaves
  \<open>delta_energy_integrate_wh\<close> at 999.9999999999999, not at 1000.0, and with a net
  reference delta of 950 the correction factor is then 0.9500000000000001, not 0.95.
\<close>

theorem hour_in_six_ticks_is_not_1000:
  "delta_energy_integrate_wh demo_anchored = lit 0
   \<and> delta_energy_ret_integrate_wh demo_anchored = lit 0
   \<and> last_integration_uptime_ms demo_anchored = Some 0
   \<and> increasing_from 0 (map fst hour_in_six)
   \<and> elapsed 0 (fst (last hour_in_six)) = lit 3600000
   \<and> list_all (\<lambda>(now, p). p = dbl 1000) hour_in_six
   \<and> delta_energy_integrate_wh
        (run demo_anchored (map (\<lambda>(now, p). sample now p) hour_in_six))
       = Fin (dbl (8796093022207999 / 8796093022208))
   \<and> delta_energy_integrate_wh
        (run demo_anchored (map (\<lambda>(now, p). sample now p) hour_in_six))
       \<noteq> lit 1000
   \<and> correctionFactor (lit 950)
        (fsub (delta_energy_integrate_wh
                 (run demo_anchored (map (\<lambda>(now, p). sample now p) hour_in_six)))
              (delta_energy_ret_integrate_wh
                 (run demo_anchored (map (\<lambda>(now, p). sample now p) hour_in_six))))
       = Fin (dbl (8556839292003943 / 9007199254740992))
   \<and> correctionFactor (lit 950)
        (fsub (delta_energy_integrate_wh
                 (run demo_anchored (map (\<lambda>(now, p). sample now p) hour_in_six)))
              (delta_energy_ret_integrate_wh
                 (run demo_anchored (map (\<lambda>(now, p). sample now p) hour_in_six))))
       \<noteq> lit 0.95"
proof -
  have a: "delta_energy_integrate_wh demo_anchored = lit 0"
      "delta_energy_ret_integrate_wh demo_anchored = lit 0"
      "last_integration_uptime_ms demo_anchored = Some 0"
    by (simp_all add: demo_anchored_def integrationTick_def integratePower_def init_state_def)
  have b: "increasing_from 0 (map fst hour_in_six)"
      "elapsed 0 (fst (last hour_in_six)) = lit 3600000"
      "list_all (\<lambda>(now, p). p = dbl 1000) hour_in_six"
    by (simp_all add: hour_in_six_def ms_def whole_numbers)
  have c: "Fin (dbl (8796093022207999 / 8796093022208)) \<noteq> lit 1000"
    by (simp add: whole_numbers six_ticks_values)
  have d: "delta_energy_ret_integrate_wh init_state = lit 0"
    by (simp add: init_state_def)
  from a b c cf_six cf_six_ne show ?thesis
    by (simp add: six_ticks_run d fsub_0_right)
qed

text \<open>
  C6, amended. From an empty window, one fast tick at 1000 W whose elapsed time is
  exactly 3600000 ms leaves the window at (1000.0, 0). In a state with that window in
  which a change of the totals is pending and settled, and whose net reference delta is
  950, the correction uses \<open>k = 0.95\<close>, adds exactly 950.0 to
  \<open>net_metered_energy_wh\<close>, leaves \<open>net_metered_energy_ret_wh\<close> as it was and
  resets the window to (0, 0).
\<close>

theorem hour_at_1000W_then_correction:
  assumes "delta_energy_integrate_wh s = lit 0" and "delta_energy_ret_integrate_wh s = lit 0"
      and "last_integration_uptime_ms s = Some t0"
      and "elapsed t0 now1 = lit 3600000"
      and "s1 = run s [sample now1 (dbl 1000)]"
      and "delta_energy_integrate_wh c = lit 1000" and "delta_energy_ret_integrate_wh c = lit 0"
      and "totals_changed_since_last_correction c"
      and "js_ge (elapsed (totals_last_change_uptime_ms c) now) (lit 5000)"
      and "fsub (fsub (toNumber t) (toNumber (baseline_total_energy_wh c)))
             (fsub (toNumber r) (toNumber (baseline_total_energy_ret_wh c))) = lit 950"
      and "c' = applyCorrectionIfReady t r now c"
  shows "delta_energy_integrate_wh s1 = lit 1000 \<and> delta_energy_ret_integrate_wh s1 = lit 0
       \<and> correctionFactor (lit 950)
           (fsub (delta_energy_integrate_wh c) (delta_energy_ret_integrate_wh c)) = lit 0.95
       \<and> fmul (delta_energy_integrate_wh c) (lit 0.95) = lit 950
       \<and> net_metered_energy_wh c' = fadd (net_metered_energy_wh c) (lit 950)
       \<and> net_metered_energy_ret_wh c' = net_metered_energy_ret_wh c
       \<and> delta_energy_integrate_wh c' = lit 0 \<and> delta_energy_ret_integrate_wh c' = lit 0"
proof -
  from assms(4) have e: "fadd (ms now1) (fneg (ms t0)) = Fin (dbl 3600000)"
    by (simp add: elapsed_def lit_def fsub_def)
  have hour: "delta_energy_integrate_wh s1 = lit 1000 \<and> delta_energy_ret_integrate_wh s1 = lit 0"
    using assms(1-3)
    by (simp add: assms(5) sample_def integrationTick_def integratePower_def
          readTotalPowerW_def Let_def e whole_numbers)
  have si: "fsub (delta_energy_integrate_wh c) (delta_energy_ret_integrate_wh c)
              = Fin (dbl 1000)"
    by (simp add: assms(6,7) whole_numbers)
  have k: "correctionFactor (lit 950)
             (fsub (delta_energy_integrate_wh c) (delta_energy_ret_integrate_wh c)) = lit 0.95"
    unfolding si using cf_normal by (simp add: lit_def)
  have m: "fmul (delta_energy_integrate_wh c) (lit 0.95) = lit 950"
          "fmul (delta_energy_ret_integrate_wh c) (lit 0.95) = Fin (dbl 0)"
    by (simp_all add: assms(6,7) whole_numbers demo_values)
  have "net_metered_energy_wh c' = fadd (net_metered_energy_wh c) (lit 950)"
       "net_metered_energy_ret_wh c' = fadd (net_metered_energy_ret_wh c) (Fin (dbl 0))"
       "delta_energy_integrate_wh c' = lit 0" "delta_energy_ret_integrate_wh c' = lit 0"
    using k m by (simp_all add: assms(11) applyCorrectionIfReady_fires [OF assms(8,9)]
                    Let_def assms(10))
  with hour k m(1) show ?thesis by (simp add: fadd_0_right)
qed

theorem hour_at_1000W_then_correction_witness:
  "elapsed 0 3600000 = lit 3600000
   \<and> delta_energy_integrate_wh (run demo_anchored [sample 3600000 (dbl 1000)]) = lit 1000
   \<and> totals_changed_since_last_correction (run demo_started demo_hour)
   \<and> js_ge (elapsed (totals_last_change_uptime_ms (run demo_started demo_hour)) 3605000)
        (lit 5000)
   \<and> net_metered_energy_wh (run demo_started demo_hour) = lit 100
   \<and> net_metered_energy_wh
       (applyCorrectionIfReady (Some (dbl 6000)) (Some (dbl 250)) 3605000
          (run demo_started demo_hour)) = lit 1050
   \<and> delta_energy_integrate_wh
       (applyCorrectionIfReady (Some (dbl 6000)) (Some (dbl 250)) 3605000
          (run demo_started demo_hour)) = lit 0
   \<and> delta_energy_ret_integrate_wh
       (applyCorrectionIfReady (Some (dbl 6000)) (Some (dbl 250)) 3605000
          (run demo_started demo_hour)) = lit 0"
proof -
  let ?c = "run demo_started demo_hour"
  have s: "delta_energy_integrate_wh demo_anchored = lit 0"
          "delta_energy_ret_integrate_wh demo_anchored = lit 0"
          "last_integration_uptime_ms demo_anchored = Some 0"
    by (simp_all add: demo_anchored_def integrationTick_def integratePower_def init_state_def)
  have e: "elapsed 0 3600000 = lit 3600000"
    by (simp add: ms_def whole_numbers)
  have c: "delta_energy_integrate_wh ?c = lit 1000" "delta_energy_ret_integrate_wh ?c = lit 0"
          "totals_changed_since_last_correction ?c"
          "js_ge (elapsed (totals_last_change_uptime_ms ?c) 3605000) (lit 5000)"
          "fsub (fsub (toNumber (Some (dbl 6000))) (toNumber (baseline_total_energy_wh ?c)))
             (fsub (toNumber (Some (dbl 250))) (toNumber (baseline_total_energy_ret_wh ?c)))
            = lit 950"
    unfolding demo_hour_eq unfolding demo_started_eq
    by (simp_all add: init_state_def ms_def whole_numbers)
  have n: "net_metered_energy_wh ?c = lit 100"
    unfolding demo_hour_eq unfolding demo_started_eq by simp
  have a: "fadd (lit 100) (lit 950) = lit 1050"
    by (simp add: whole_numbers)
  from hour_at_1000W_then_correction [OF s e refl c refl] e c(3,4) n a
  show ?thesis by simp
qed

section \<open>The window against the exact energy sum\<close>

lemma unit_roundoff_bounds: "0 < unit_roundoff" "unit_roundoff \<le> 1"
proof -
  show "0 < unit_roundoff" by (simp add: unit_roundoff_def two_powi_pos)
  from two_powi_mono [of "- 53" 0] show "unit_roundoff \<le> 1" by (simp add: unit_roundoff_def)
qed

lemma underflow_unit_pos: "0 < underflow_unit"
  by (simp add: underflow_unit_def two_powi_pos)

lemma two_powi_half: "(2::real) powi e / 2 = 2 powi (e - 1)"
  using two_powi_add [of "e - 1" 1] by simp

lemma half_ulp: "(2::real) powi e / 2 = unit_roundoff * 2 powi (e + 52)"
  unfolding unit_roundoff_def two_powi_half two_powi_add [symmetric] by simp

lemma rnd_rel_error: "\<bar>rnd x - x\<bar> \<le> unit_roundoff * \<bar>x\<bar> + underflow_unit"
proof (cases "ulp_exp x = - 1074")
  case True
  have "\<bar>rnd x - x\<bar> \<le> 2 powi ulp_exp x / 2" by (rule rnd_error)
  also have "\<dots> = underflow_unit"
    unfolding True underflow_unit_def two_powi_half by simp
  also have "\<dots> \<le> unit_roundoff * \<bar>x\<bar> + underflow_unit"
    using unit_roundoff_bounds(1) by simp
  finally show ?thesis .
next
  case False
  with ulp_exp_range [of x] have "- 1074 < ulp_exp x" by linarith
  then have l: "2 powi (ulp_exp x + 52) \<le> \<bar>x\<bar>" by (rule ulp_exp_lower)
  have "\<bar>rnd x - x\<bar> \<le> 2 powi ulp_exp x / 2" by (rule rnd_error)
  also have "\<dots> = unit_roundoff * 2 powi (ulp_exp x + 52)" by (rule half_ulp)
  also have "\<dots> \<le> unit_roundoff * \<bar>x\<bar>"
    using l unit_roundoff_bounds(1) by (simp add: mult_left_mono)
  also have "\<dots> \<le> unit_roundoff * \<bar>x\<bar> + underflow_unit"
    using underflow_unit_pos by simp
  finally show ?thesis .
qed

text \<open>Every double is a whole multiple of the smallest subnormal.\<close>

lemma rnd_multiple: "\<exists>k::int. rnd x = of_int k * 2 powi (- 1074)"
proof -
  define e where "e = ulp_exp x"
  define n where "n = nat (e + 1074)"
  have "- 1074 \<le> e" using ulp_exp_range [of x] by (simp add: e_def)
  then have "e = int n + (- 1074)" by (simp add: n_def)
  then have "(2::real) powi e = 2 powi (int n) * 2 powi (- 1074)"
    by (simp only: two_powi_add)
  also have "(2::real) powi (int n) = of_int (2 ^ n)" by simp
  finally have "rnd x = of_int (round_half_even (x / 2 powi e) * 2 ^ n) * 2 powi (- 1074)"
    by (simp only: rnd_def e_def [symmetric] of_int_mult mult.assoc)
  then show ?thesis by blast
qed

lemma val_multiple: "\<exists>k::int. val d = of_int k * 2 powi (- 1074)"
proof -
  from val [of d] obtain x where x: "val d = round_to_double x" by blast
  show ?thesis
  proof (cases "\<bar>rnd x\<bar> < 2 ^ 1024")
    case True
    with x have "val d = rnd x" by (simp only: round_to_double_def if_True)
    with rnd_multiple [of x] show ?thesis by simp
  next
    case False
    with x have "val d = of_int 0 * 2 powi (- 1074)" by (simp only: round_to_double_def if_False of_int_0 mult_zero_left)
    then show ?thesis by blast
  qed
qed

lemma sum_rounding:
  assumes "0 \<le> val a" and "0 \<le> val w"
  shows "\<bar>rnd (val a + val w) - (val a + val w)\<bar> \<le> unit_roundoff * rnd (val a + val w)"
proof -
  define y where "y = val a + val w"
  from val_multiple [of a] obtain k :: int where k: "val a = of_int k * 2 powi (- 1074)" by blast
  from val_multiple [of w] obtain l :: int where l: "val w = of_int l * 2 powi (- 1074)" by blast
  have y: "y = of_int (k + l) * 2 powi (- 1074)"
    unfolding y_def k l by (simp only: of_int_add distrib_right)
  have n: "0 \<le> y" using assms by (simp add: y_def)
  have "\<bar>rnd y - y\<bar> \<le> unit_roundoff * rnd y"
  proof (cases "ulp_exp y = - 1074")
    case True
    then have "ulp_exp y \<le> - 1074" by simp
    from rnd_fixed [OF y this] have "rnd y = y" .
    with n unit_roundoff_bounds(1) show ?thesis by simp
  next
    case False
    with ulp_exp_range [of y] have "- 1074 < ulp_exp y" by linarith
    from rnd_above_binade [OF n this] have b: "2 powi (ulp_exp y + 52) \<le> rnd y" .
    have "\<bar>rnd y - y\<bar> \<le> 2 powi ulp_exp y / 2" by (rule rnd_error)
    also have "\<dots> = unit_roundoff * 2 powi (ulp_exp y + 52)" by (rule half_ulp)
    also have "\<dots> \<le> unit_roundoff * rnd y"
      using b unit_roundoff_bounds(1) by (simp add: mult_left_mono)
    finally show ?thesis .
  qed
  then show ?thesis unfolding y_def .
qed

lemma fadd_finite:
  assumes "nonneg x" and "nonneg y" and "fadd x y = Fin c"
  shows "\<exists>a w. x = Fin a \<and> y = Fin w \<and> 0 \<le> val a \<and> 0 \<le> val w \<and> val a \<le> val c
           \<and> \<bar>val c - (val a + val w)\<bar> \<le> unit_roundoff * val c"
proof -
  from assms(1) have "(\<exists>a. x = Fin a \<and> 0 \<le> val a) \<or> x = PInf" by (simp only: nonneg_iff)
  moreover from assms(2) have "(\<exists>w. y = Fin w \<and> 0 \<le> val w) \<or> y = PInf" by (simp only: nonneg_iff)
  ultimately obtain a w where a: "x = Fin a" "0 \<le> val a" and w: "y = Fin w" "0 \<le> val w"
    using assms(3) by auto
  from assms(3) a(1) w(1) have t: "to_number (val a + val w) = Fin c" by simp
  with to_number_cases [of "val a + val w"]
  have c: "val c = rnd (val a + val w)" by auto
  from rnd_mono [of "val a" "val a + val w"] w(2) have "val a \<le> val c"
    by (simp add: c rnd_val)
  moreover from sum_rounding [OF a(2) w(2)]
  have "\<bar>val c - (val a + val w)\<bar> \<le> unit_roundoff * val c" by (simp only: c)
  ultimately show ?thesis using a w by blast
qed

lemma conv_error:
  assumes "0 \<le> x"
  shows "\<bar>rnd (p * rnd x) - p * x\<bar>
           \<le> unit_roundoff * (3 * (\<bar>p\<bar> * x)) + underflow_unit * (2 * \<bar>p\<bar> + 1)"
proof -
  define u where "u = unit_roundoff"
  define h where "h = underflow_unit"
  define P where "P = \<bar>p\<bar>"
  define q where "q = rnd x"
  define A where "A = P * x"
  define B where "B = P * h"
  have u: "0 < u" "u \<le> 1" using unit_roundoff_bounds by (simp_all add: u_def)
  have h: "0 < h" using underflow_unit_pos by (simp add: h_def)
  have P: "0 \<le> P" by (simp add: P_def)
  have A: "0 \<le> A" using P assms by (simp add: A_def)
  have B: "0 \<le> B" using P h by (simp add: B_def)
  have 1: "\<bar>q - x\<bar> \<le> u * x + h"
    using rnd_rel_error [of x] assms by (simp add: q_def u_def h_def)
  then have 2: "\<bar>q\<bar> \<le> x + (u * x + h)" using assms by linarith
  have 3: "\<bar>rnd (p * q) - p * q\<bar> \<le> u * (P * \<bar>q\<bar>) + h"
    using rnd_rel_error [of "p * q"] by (simp add: abs_mult u_def h_def P_def)
  have 4: "\<bar>p * q - p * x\<bar> = P * \<bar>q - x\<bar>"
    by (simp only: P_def abs_mult [symmetric] right_diff_distrib)
  have 5: "P * \<bar>q - x\<bar> \<le> P * (u * x + h)" using 1 P by (rule mult_left_mono)
  have "P * \<bar>q\<bar> \<le> P * (x + (u * x + h))" using 2 P by (rule mult_left_mono)
  then have 6: "u * (P * \<bar>q\<bar>) \<le> u * (P * (x + (u * x + h)))"
    using u(1) by (simp add: mult_left_mono)
  have 7: "u * (u * A) \<le> u * A"
    using mult_right_mono [OF u(2), of "u * A"] u(1) A by simp
  have 8: "u * B \<le> B"
    using mult_right_mono [OF u(2), of B] B by simp
  have e: "u * (P * (x + (u * x + h))) + h + P * (u * x + h)
            = 2 * (u * A) + u * (u * A) + u * B + h + B"
    by (simp add: A_def B_def algebra_simps)
  have "\<bar>rnd (p * q) - p * x\<bar> \<le> \<bar>rnd (p * q) - p * q\<bar> + \<bar>p * q - p * x\<bar>" by linarith
  also have "\<dots> \<le> u * (P * (x + (u * x + h))) + h + P * (u * x + h)"
    using 3 4 5 6 by linarith
  also have "\<dots> \<le> 3 * (u * A) + (2 * B + h)" unfolding e using 7 8 by linarith
  also have "\<dots> = unit_roundoff * (3 * (\<bar>p\<bar> * x)) + underflow_unit * (2 * \<bar>p\<bar> + 1)"
    by (simp add: A_def B_def u_def h_def P_def algebra_simps)
  finally show ?thesis by (simp only: q_def)
qed

lemma tick_energy:
  assumes "js_gt (elapsed t now) (lit 0)"
  shows "\<exists>d q. fsub (ms now) (ms t) = Fin d \<and> 0 < val d
           \<and> fdiv (Fin d) (lit 3600000) = Fin q \<and> val q = rnd (val d / 3600000)"
proof -
  from elapsed_finite [of now t] obtain d
    where d: "fsub (ms now) (ms t) = Fin d" "\<bar>val d\<bar> \<le> 2 ^ 64" by blast
  from assms d(1) have p: "0 < val d"
    by (simp add: elapsed_def js_gt_def lit_def val_dbl_0)
  from d(2) have "\<bar>val d / 3600000\<bar> \<le> 2 powi 64" by simp
  from to_number_finite [OF this]
  have "fdiv (Fin d) (lit 3600000) = Fin (dbl (val d / 3600000))"
       "val (dbl (val d / 3600000)) = rnd (val d / 3600000)"
    by (simp_all add: lit_def val_3600000)
  with d(1) p show ?thesis by blast
qed

lemma integratePower_error:
  assumes "window_nonneg s" and "last_integration_uptime_ms s = Some t"
      and "js_gt (elapsed t now) (lit 0)"
      and "s1 = integratePower now (Some \<lparr> total_act_power = JNumber (Fin p) \<rparr>) s"
      and "delta_energy_integrate_wh s1 = Fin a1"
      and "delta_energy_ret_integrate_wh s1 = Fin b1"
  shows "\<exists>a b. delta_energy_integrate_wh s = Fin a \<and> delta_energy_ret_integrate_wh s = Fin b
           \<and> val a \<le> val a1 \<and> val b \<le> val b1 \<and> 0 \<le> val a \<and> 0 \<le> val b
           \<and> \<bar>(val a1 - val b1)
                - ((val a - val b) + val p * fin_val (elapsed t now) / 3600000)\<bar>
               \<le> unit_roundoff
                    * ((val a1 + val b1) + 3 * (\<bar>val p\<bar> * fin_val (elapsed t now) / 3600000))
                   + underflow_unit * (2 * \<bar>val p\<bar> + 1)"
proof -
  from tick_energy [OF assms(3)] obtain d q
    where d: "fsub (ms now) (ms t) = Fin d" "0 < val d"
      and q: "fdiv (Fin d) (lit 3600000) = Fin q" "val q = rnd (val d / 3600000)" by blast
  define x where "x = val d / 3600000"
  define wh where "wh = fmul (Fin p) (Fin q)"
  have x: "0 \<le> x" "fin_val (elapsed t now) / 3600000 = x"
    using d by (simp_all add: x_def elapsed_def)
  have wh: "wh = to_number (val p * rnd x)" by (simp add: wh_def q(2) x_def)
  have nn: "wh \<noteq> NaN" by (simp add: wh to_number_not_NaN)
  have e: "\<bar>rnd (val p * rnd x) - val p * x\<bar>
             \<le> unit_roundoff * (3 * (\<bar>val p\<bar> * x)) + underflow_unit * (2 * \<bar>val p\<bar> + 1)"
    using x(1) by (rule conv_error)
  from assms(1) have n: "nonneg (delta_energy_integrate_wh s)"
      "nonneg (delta_energy_ret_integrate_wh s)"
    by (simp_all add: window_nonneg_def)
  have nle: "\<not> js_le (Fin d) (lit 0)" using d(2) by (simp add: lit_def val_dbl_0)
  show ?thesis
  proof (cases "js_ge wh (lit 0)")
    case True
    then have nw: "nonneg wh" by (simp only: js_ge_nonneg)
    from True have s1: "delta_energy_integrate_wh s1 = fadd (delta_energy_integrate_wh s) wh"
        "delta_energy_ret_integrate_wh s1 = delta_energy_ret_integrate_wh s"
      using nle by (simp_all add: assms(2,4) integratePower_def readTotalPowerW_present
            Let_def d(1) q(1) wh_def)
    from s1(1) assms(5) have "fadd (delta_energy_integrate_wh s) wh = Fin a1" by simp
    from fadd_finite [OF n(1) nw this] obtain a w
      where a: "delta_energy_integrate_wh s = Fin a" "wh = Fin w" "0 \<le> val a" "0 \<le> val w"
               "val a \<le> val a1" "\<bar>val a1 - (val a + val w)\<bar> \<le> unit_roundoff * val a1"
      by blast
    from s1(2) assms(6) have b: "delta_energy_ret_integrate_wh s = Fin b1" by simp
    with n(2) have b0: "0 \<le> val b1" by (simp add: nonneg_def lit_def val_dbl_0)
    from a(2) wh to_number_cases [of "val p * rnd x"]
    have w: "val w = rnd (val p * rnd x)" by auto
    have "unit_roundoff * val a1 \<le> unit_roundoff * (val a1 + val b1)"
      using b0 unit_roundoff_bounds(1) by (simp add: mult_left_mono)
    with a(6) e
    have "\<bar>(val a1 - val b1) - ((val a - val b1) + val p * x)\<bar>
            \<le> unit_roundoff * (val a1 + val b1) + unit_roundoff * (3 * (\<bar>val p\<bar> * x))
                + underflow_unit * (2 * \<bar>val p\<bar> + 1)"
      unfolding w [symmetric] by linarith
    then have "\<bar>(val a1 - val b1) - ((val a - val b1) + val p * x)\<bar>
            \<le> unit_roundoff * ((val a1 + val b1) + 3 * (\<bar>val p\<bar> * x))
                + underflow_unit * (2 * \<bar>val p\<bar> + 1)"
      by (simp only: distrib_left)
    with a(1,3,5) b b0 show ?thesis
      unfolding x(2) [symmetric] by (simp add: mult.assoc)
  next
    case False
    then have nw: "nonneg (fneg wh)" using nn by (rule fneg_nonneg)
    from False have s1: "delta_energy_integrate_wh s1 = delta_energy_integrate_wh s"
        "delta_energy_ret_integrate_wh s1 = fadd (delta_energy_ret_integrate_wh s) (fneg wh)"
      using nle by (simp_all add: assms(2,4) integratePower_def readTotalPowerW_present
            Let_def d(1) q(1) wh_def)
    from s1(2) assms(6) have "fadd (delta_energy_ret_integrate_wh s) (fneg wh) = Fin b1"
      by simp
    from fadd_finite [OF n(2) nw this] obtain b w
      where b: "delta_energy_ret_integrate_wh s = Fin b" "fneg wh = Fin w" "0 \<le> val b"
               "0 \<le> val w" "val b \<le> val b1"
               "\<bar>val b1 - (val b + val w)\<bar> \<le> unit_roundoff * val b1"
      by blast
    from s1(1) assms(5) have a: "delta_energy_integrate_wh s = Fin a1" by simp
    with n(1) have a0: "0 \<le> val a1" by (simp add: nonneg_def lit_def val_dbl_0)
    from b(2) obtain v where v: "wh = Fin v" "val w = - val v"
      by (cases wh) (auto simp add: val_dbl_minus)
    from v(1) wh to_number_cases [of "val p * rnd x"]
    have w: "val v = rnd (val p * rnd x)" by auto
    have "unit_roundoff * val b1 \<le> unit_roundoff * (val a1 + val b1)"
      using a0 unit_roundoff_bounds(1) by (simp add: mult_left_mono)
    with b(6) e
    have "\<bar>(val a1 - val b1) - ((val a1 - val b) + val p * x)\<bar>
            \<le> unit_roundoff * (val a1 + val b1) + unit_roundoff * (3 * (\<bar>val p\<bar> * x))
                + underflow_unit * (2 * \<bar>val p\<bar> + 1)"
      unfolding w [symmetric] v(2) by linarith
    then have "\<bar>(val a1 - val b1) - ((val a1 - val b) + val p * x)\<bar>
            \<le> unit_roundoff * ((val a1 + val b1) + 3 * (\<bar>val p\<bar> * x))
                + underflow_unit * (2 * \<bar>val p\<bar> + 1)"
      by (simp only: distrib_left)
    with b(1,3,5) a a0 show ?thesis
      unfolding x(2) [symmetric] by (simp add: mult.assoc)
  qed
qed

lemma integratePower_anchor:
  assumes "last_integration_uptime_ms s = Some t" and "js_gt (elapsed t now) (lit 0)"
  shows "last_integration_uptime_ms (integratePower now em s) = Some now"
proof -
  from tick_energy [OF assms(2)] obtain d
    where d: "fsub (ms now) (ms t) = Fin d" "0 < val d" by blast
  then have "\<not> js_le (fsub (ms now) (ms t)) (lit 0)" by (simp add: lit_def val_dbl_0)
  then show ?thesis
    by (simp add: integratePower_def assms(1) Let_def split: option.splits)
qed

lemma run_error:
  assumes "window_nonneg s" and "last_integration_uptime_ms s = Some t"
      and "increasing_from t (map fst xs)"
      and "s' = run s (map (\<lambda>(now, p). sample now p) xs)"
      and "delta_energy_integrate_wh s' = Fin a'"
      and "delta_energy_ret_integrate_wh s' = Fin b'"
  shows "\<exists>a b. delta_energy_integrate_wh s = Fin a \<and> delta_energy_ret_integrate_wh s = Fin b
           \<and> val a \<le> val a' \<and> val b \<le> val b' \<and> 0 \<le> val a \<and> 0 \<le> val b
           \<and> \<bar>(val a' - val b') - ((val a - val b) + signed_energy t xs)\<bar>
               \<le> tolerance (val a' + val b') t xs"
  using assms
proof (induction xs arbitrary: s t)
  case Nil
  then have "delta_energy_integrate_wh s = Fin a'" "delta_energy_ret_integrate_wh s = Fin b'"
    by simp_all
  moreover from this Nil(1) have "0 \<le> val a'" "0 \<le> val b'"
    by (simp_all add: window_nonneg_def nonneg_def lit_def val_dbl_0)
  ultimately show ?case by simp
next
  case (Cons x xs)
  obtain now p where x: "x = (now, p)" by (cases x)
  define s1 where "s1 = integratePower now (Some \<lparr> total_act_power = JNumber (Fin p) \<rparr>) s"
  from Cons.prems(3) have inc: "js_gt (elapsed t now) (lit 0)" "increasing_from now (map fst xs)"
    by (simp_all add: x)
  have n1: "window_nonneg s1" unfolding s1_def using Cons.prems(1) by (rule integratePower_nonneg)
  have t1: "last_integration_uptime_ms s1 = Some now"
    unfolding s1_def using Cons.prems(2) inc(1) by (rule integratePower_anchor)
  have r: "s' = run s1 (map (\<lambda>(now, p). sample now p) xs)"
    by (simp add: Cons.prems(4) x s1_def sample_def integrationTick_def)
  from Cons.IH [OF n1 t1 inc(2) r Cons.prems(5,6)] obtain a1 b1
    where 1: "delta_energy_integrate_wh s1 = Fin a1" "delta_energy_ret_integrate_wh s1 = Fin b1"
             "val a1 \<le> val a'" "val b1 \<le> val b'"
             "\<bar>(val a' - val b') - ((val a1 - val b1) + signed_energy now xs)\<bar>
                \<le> tolerance (val a' + val b') now xs"
    by blast
  from integratePower_error [OF Cons.prems(1,2) inc(1) s1_def 1(1,2)] obtain a b
    where 0: "delta_energy_integrate_wh s = Fin a" "delta_energy_ret_integrate_wh s = Fin b"
             "val a \<le> val a1" "val b \<le> val b1" "0 \<le> val a" "0 \<le> val b"
             "\<bar>(val a1 - val b1)
                - ((val a - val b) + val p * fin_val (elapsed t now) / 3600000)\<bar>
               \<le> unit_roundoff
                    * ((val a1 + val b1) + 3 * (\<bar>val p\<bar> * fin_val (elapsed t now) / 3600000))
                   + underflow_unit * (2 * \<bar>val p\<bar> + 1)"
    by blast
  have "unit_roundoff * ((val a1 + val b1) + 3 * (\<bar>val p\<bar> * fin_val (elapsed t now) / 3600000))
          \<le> unit_roundoff
               * ((val a' + val b') + 3 * (\<bar>val p\<bar> * fin_val (elapsed t now) / 3600000))"
    using 1(3,4) unit_roundoff_bounds(1) by (simp add: mult_left_mono)
  with 0(7) 1(5)
  have "\<bar>(val a' - val b') - ((val a - val b) + signed_energy t (x # xs))\<bar>
          \<le> tolerance (val a' + val b') t (x # xs)"
    unfolding x signed_energy.simps tolerance.simps by linarith
  with 0(1,2,3,4,5,6) 1(3,4) show ?case
    by (intro exI [of _ a] exI [of _ b]) simp
qed

lemma signed_energy_six: "signed_energy 0 hour_in_six = 1000"
  by (simp add: hour_in_six_def ms_def whole_numbers)

text \<open>
  C4, as stated, fails: from an empty window, six fast ticks at 1000 W with 600000 ms
  between them have the exact signed energy sum 1000, and the window difference
  \<open>delta_energy_integrate_wh - delta_energy_ret_integrate_wh\<close> they leave is
  999.9999999999999.
\<close>

theorem six_ticks_miss_signed_energy_sum:
  "delta_energy_integrate_wh demo_anchored = lit 0
   \<and> delta_energy_ret_integrate_wh demo_anchored = lit 0
   \<and> last_integration_uptime_ms demo_anchored = Some 0
   \<and> increasing_from 0 (map fst hour_in_six)
   \<and> signed_energy 0 hour_in_six = 1000
   \<and> fin_val (delta_energy_integrate_wh
                (run demo_anchored (map (\<lambda>(now, p). sample now p) hour_in_six)))
       - fin_val (delta_energy_ret_integrate_wh
                (run demo_anchored (map (\<lambda>(now, p). sample now p) hour_in_six)))
       = 8796093022207999 / 8796093022208
   \<and> fin_val (delta_energy_integrate_wh
                (run demo_anchored (map (\<lambda>(now, p). sample now p) hour_in_six)))
       - fin_val (delta_energy_ret_integrate_wh
                (run demo_anchored (map (\<lambda>(now, p). sample now p) hour_in_six)))
       \<noteq> signed_energy 0 hour_in_six"
proof -
  have a: "delta_energy_integrate_wh demo_anchored = lit 0"
      "delta_energy_ret_integrate_wh demo_anchored = lit 0"
      "last_integration_uptime_ms demo_anchored = Some 0"
    by (simp_all add: demo_anchored_def integrationTick_def integratePower_def init_state_def)
  have b: "increasing_from 0 (map fst hour_in_six)"
    by (simp add: hour_in_six_def ms_def whole_numbers)
  have c: "fin_val (Fin (dbl (8796093022207999 / 8796093022208))) = 8796093022207999 / 8796093022208"
          "fin_val (delta_energy_ret_integrate_wh init_state) = 0"
    by (simp_all add: six_ticks_values init_state_def whole_numbers)
  from a b c show ?thesis by (simp add: six_ticks_run signed_energy_six)
qed

text \<open>
  C4, amended. For every finite sequence of fast ticks with available power samples and
  positive elapsed times, from a state whose window components are not negative and
  with no slow tick in between: if the window components are finite at the end, they
  were finite at the start, and the change of
  \<open>delta_energy_integrate_wh - delta_energy_ret_integrate_wh\<close> differs from the exact signed
  sum of \<open>p\<^sub>i * dt\<^sub>i / 3600000\<close> by at most the tolerance: per tick, \<open>2\<^sup>-\<^sup>5\<^sup>3\<close> times the final
  sum of the two components plus three times \<open>\<bar>p\<^sub>i\<bar> * dt\<^sub>i / 3600000\<close>, plus \<open>2\<^sup>-\<^sup>1\<^sup>0\<^sup>7\<^sup>5\<close> times
  \<open>2\<bar>p\<^sub>i\<bar> + 1\<close>.
\<close>

theorem window_near_signed_energy_sum:
  assumes "window_nonneg s" and "last_integration_uptime_ms s = Some t0"
      and "increasing_from t0 (map fst xs)"
      and "s' = run s (map (\<lambda>(now, p). sample now p) xs)"
      and "isNumber (JNumber (delta_energy_integrate_wh s'))"
      and "isNumber (JNumber (delta_energy_ret_integrate_wh s'))"
  shows "isNumber (JNumber (delta_energy_integrate_wh s))
       \<and> isNumber (JNumber (delta_energy_ret_integrate_wh s))
       \<and> \<bar>(fin_val (delta_energy_integrate_wh s') - fin_val (delta_energy_ret_integrate_wh s'))
            - ((fin_val (delta_energy_integrate_wh s) - fin_val (delta_energy_ret_integrate_wh s))
               + signed_energy t0 xs)\<bar>
           \<le> tolerance (fin_val (delta_energy_integrate_wh s')
                           + fin_val (delta_energy_ret_integrate_wh s')) t0 xs"
proof -
  from assms(5) obtain a' where a': "delta_energy_integrate_wh s' = Fin a'"
    by (cases "delta_energy_integrate_wh s'") simp_all
  from assms(6) obtain b' where b': "delta_energy_ret_integrate_wh s' = Fin b'"
    by (cases "delta_energy_ret_integrate_wh s'") simp_all
  from run_error [OF assms(1-4) a' b'] obtain a b
    where "delta_energy_integrate_wh s = Fin a" "delta_energy_ret_integrate_wh s = Fin b"
          "\<bar>(val a' - val b') - ((val a - val b) + signed_energy t0 xs)\<bar>
             \<le> tolerance (val a' + val b') t0 xs"
    by blast
  with a' b' show ?thesis by simp
qed

theorem window_near_signed_energy_sum_witness:
  "window_nonneg demo_anchored
   \<and> last_integration_uptime_ms demo_anchored = Some 0
   \<and> increasing_from 0 (map fst hour_in_six)
   \<and> delta_energy_integrate_wh (run demo_anchored (map (\<lambda>(now, p). sample now p) hour_in_six))
       = Fin (dbl (8796093022207999 / 8796093022208))
   \<and> delta_energy_ret_integrate_wh
        (run demo_anchored (map (\<lambda>(now, p). sample now p) hour_in_six)) = lit 0
   \<and> signed_energy 0 hour_in_six = 1000
   \<and> \<bar>(fin_val (delta_energy_integrate_wh
                   (run demo_anchored (map (\<lambda>(now, p). sample now p) hour_in_six)))
          - fin_val (delta_energy_ret_integrate_wh
                   (run demo_anchored (map (\<lambda>(now, p). sample now p) hour_in_six))))
         - ((fin_val (delta_energy_integrate_wh demo_anchored)
               - fin_val (delta_energy_ret_integrate_wh demo_anchored))
            + signed_energy 0 hour_in_six)\<bar>
       \<le> tolerance
            (fin_val (delta_energy_integrate_wh
                        (run demo_anchored (map (\<lambda>(now, p). sample now p) hour_in_six)))
             + fin_val (delta_energy_ret_integrate_wh
                        (run demo_anchored (map (\<lambda>(now, p). sample now p) hour_in_six))))
            0 hour_in_six"
proof -
  let ?s' = "run demo_anchored (map (\<lambda>(now, p). sample now p) hour_in_six)"
  have a: "window_nonneg demo_anchored" "last_integration_uptime_ms demo_anchored = Some 0"
    by (simp_all add: demo_anchored_def integrationTick_def integratePower_def init_state_def
          window_nonneg_def nonneg_def whole_numbers)
  have b: "increasing_from 0 (map fst hour_in_six)"
    by (simp add: hour_in_six_def ms_def whole_numbers)
  have c: "delta_energy_integrate_wh ?s' = Fin (dbl (8796093022207999 / 8796093022208))"
          "delta_energy_ret_integrate_wh ?s' = lit 0"
    by (simp_all add: six_ticks_run init_state_def)
  have d: "isNumber (JNumber (delta_energy_integrate_wh ?s'))"
          "isNumber (JNumber (delta_energy_ret_integrate_wh ?s'))"
    by (simp_all only: c lit_def isNumber.simps)
  from window_near_signed_energy_sum [OF a b refl d] a b c signed_energy_six
  show ?thesis by blast
qed

section \<open>Failed reference reads\<close>

lemma totalsTick_read_fails: "read_fails (emdata e) \<Longrightarrow> totalsTick e s = s"
  by (auto simp: totalsTick_def readTotalsWh_def read_fails_def split: option.splits)

lemma outside_integrator_integratePower:
  "outside_integrator (integratePower now em s) = outside_integrator s"
  by (simp add: outside_integrator_def integratePower_def Let_def split: option.splits)

lemma outside_integrator_step:
  "reads_fail ev \<Longrightarrow> outside_integrator (step s ev) = outside_integrator s"
  by (cases ev)
     (simp_all add: integrationTick_def outside_integrator_integratePower totalsTick_read_fails)

lemma outside_integrator_run:
  "list_all reads_fail evs \<Longrightarrow> outside_integrator (run s evs) = outside_integrator s"
  by (induction evs arbitrary: s) (simp_all add: outside_integrator_step)

lemma start_read_fails: "read_fails (emdata e) \<Longrightarrow> start virt e = loadPersisted virt init_state"
  by (auto simp: start_def readTotalsWh_def read_fails_def Let_def split: option.splits)

lemma outside_integrator_fields:
  "baseline_total_energy_wh (outside_integrator s) = baseline_total_energy_wh s"
  "baseline_total_energy_ret_wh (outside_integrator s) = baseline_total_energy_ret_wh s"
  "last_seen_total_energy_wh (outside_integrator s) = last_seen_total_energy_wh s"
  "last_seen_total_energy_ret_wh (outside_integrator s) = last_seen_total_energy_ret_wh s"
  "totals_changed_since_last_correction (outside_integrator s)
     = totals_changed_since_last_correction s"
  "net_metered_energy_wh (outside_integrator s) = net_metered_energy_wh s"
  "net_metered_energy_ret_wh (outside_integrator s) = net_metered_energy_ret_wh s"
  "net_metered_energy_handle (outside_integrator s) = net_metered_energy_handle s"
  "net_metered_energy_ret_handle (outside_integrator s) = net_metered_energy_ret_handle s"
  by (simp_all add: outside_integrator_def)

text \<open>
  C8. A slow tick whose reference read fails returns the state unchanged. If the read at
  startup and the read of every slow tick of a run fail, then at the end of the run the
  baseline and the last seen totals are still null, no change is pending, and the two
  accumulators and their handles are the ones loaded at startup.
\<close>

theorem failed_reference_reads:
  "(read_fails (emdata te) \<longrightarrow> totalsTick te s = s)
   \<and> (read_fails (emdata e0) \<and> list_all reads_fail evs \<longrightarrow>
        baseline_total_energy_wh (run (start virt e0) evs) = None
        \<and> baseline_total_energy_ret_wh (run (start virt e0) evs) = None
        \<and> last_seen_total_energy_wh (run (start virt e0) evs) = None
        \<and> last_seen_total_energy_ret_wh (run (start virt e0) evs) = None
        \<and> \<not> totals_changed_since_last_correction (run (start virt e0) evs)
        \<and> net_metered_energy_wh (run (start virt e0) evs)
            = net_metered_energy_wh (loadPersisted virt init_state)
        \<and> net_metered_energy_ret_wh (run (start virt e0) evs)
            = net_metered_energy_ret_wh (loadPersisted virt init_state)
        \<and> net_metered_energy_handle (run (start virt e0) evs) = virt NET_METERED_ENERGY_KEY
        \<and> net_metered_energy_ret_handle (run (start virt e0) evs)
            = virt NET_METERED_ENERGY_RET_KEY)"
proof (intro conjI impI)
  assume "read_fails (emdata te)"
  then show "totalsTick te s = s" by (rule totalsTick_read_fails)
next
  assume a: "read_fails (emdata e0) \<and> list_all reads_fail evs"
  let ?l = "loadPersisted virt init_state"
  let ?s = "run (start virt e0) evs"
  from a have eq: "outside_integrator ?s = outside_integrator ?l"
    by (simp add: outside_integrator_run start_read_fails)
  have l: "baseline_total_energy_wh ?l = None" "baseline_total_energy_ret_wh ?l = None"
          "last_seen_total_energy_wh ?l = None" "last_seen_total_energy_ret_wh ?l = None"
          "\<not> totals_changed_since_last_correction ?l"
          "net_metered_energy_handle ?l = virt NET_METERED_ENERGY_KEY"
          "net_metered_energy_ret_handle ?l = virt NET_METERED_ENERGY_RET_KEY"
    by (simp_all add: loadPersisted_def Let_def init_state_def)
  from outside_integrator_fields(1) [of ?s] eq l(1)
  show "baseline_total_energy_wh ?s = None"
    by (simp add: outside_integrator_fields)
  from outside_integrator_fields(2) [of ?s] eq l(2)
  show "baseline_total_energy_ret_wh ?s = None"
    by (simp add: outside_integrator_fields)
  from outside_integrator_fields(3) [of ?s] eq l(3)
  show "last_seen_total_energy_wh ?s = None"
    by (simp add: outside_integrator_fields)
  from outside_integrator_fields(4) [of ?s] eq l(4)
  show "last_seen_total_energy_ret_wh ?s = None"
    by (simp add: outside_integrator_fields)
  from outside_integrator_fields(5) [of ?s] eq l(5)
  show "\<not> totals_changed_since_last_correction ?s"
    by (simp add: outside_integrator_fields)
  from outside_integrator_fields(6) [of ?s] eq
  show "net_metered_energy_wh ?s = net_metered_energy_wh ?l"
    by (simp add: outside_integrator_fields)
  from outside_integrator_fields(7) [of ?s] eq
  show "net_metered_energy_ret_wh ?s = net_metered_energy_ret_wh ?l"
    by (simp add: outside_integrator_fields)
  from outside_integrator_fields(8) [of ?s] eq l(6)
  show "net_metered_energy_handle ?s = virt NET_METERED_ENERGY_KEY"
    by (simp add: outside_integrator_fields)
  from outside_integrator_fields(9) [of ?s] eq l(7)
  show "net_metered_energy_ret_handle ?s = virt NET_METERED_ENERGY_RET_KEY"
    by (simp add: outside_integrator_fields)
qed

text \<open>The two roundings of the tick of 230 W over 500 ms.\<close>

lemma at_7200th:
  "to_number (1 / 7200) = Fin (dbl (5124095576030431 / 36893488147419103232))
   \<and> val (dbl (5124095576030431 / 36893488147419103232)) = 5124095576030431 / 36893488147419103232
   \<and> val (dbl (1 / 7200)) = 5124095576030431 / 36893488147419103232"
  by (rule to_number_at [of "- 65"]) (simp_all add: round_half_even_def)

lemma at_230_7200th:
  "to_number (589270991243499565 / 18446744073709551616) = Fin (dbl (287729976193115 / 9007199254740992))
   \<and> val (dbl (287729976193115 / 9007199254740992)) = 287729976193115 / 9007199254740992
   \<and> val (dbl (589270991243499565 / 18446744073709551616)) = 287729976193115 / 9007199254740992"
  by (rule to_number_at [of "- 57"]) (simp_all add: round_half_even_def)

lemma at_230_7200th_sum:
  "to_number (287729976193115 / 9007199254740992) = Fin (dbl (287729976193115 / 9007199254740992))
   \<and> val (dbl (287729976193115 / 9007199254740992)) = 287729976193115 / 9007199254740992
   \<and> val (dbl (287729976193115 / 9007199254740992)) = 287729976193115 / 9007199254740992"
  by (rule to_number_at [of "- 57"]) (simp_all add: round_half_even_def)

theorem failed_reference_reads_witness:
  "read_fails (emdata (demo_totals 5000 None))
   \<and> totalsTick (demo_totals 5000 None) demo_started = demo_started
   \<and> read_fails (emdata (demo_totals 0 None)) \<and> list_all reads_fail demo_blind
   \<and> baseline_total_energy_wh (run (start demo_virt (demo_totals 0 None)) demo_blind) = None
   \<and> delta_energy_integrate_wh (run (start demo_virt (demo_totals 0 None)) demo_blind)
       = Fin (dbl (287729976193115 / 9007199254740992))
   \<and> net_metered_energy_wh (run (start demo_virt (demo_totals 0 None)) demo_blind) = lit 100
   \<and> net_metered_energy_ret_wh (run (start demo_virt (demo_totals 0 None)) demo_blind) = lit 40"
proof -
  have a: "read_fails (emdata (demo_totals 5000 None))" "read_fails (emdata (demo_totals 0 None))"
    by (simp_all add: demo_totals_def read_fails_def)
  have b: "list_all reads_fail demo_blind"
    by (simp add: demo_blind_def sample_def demo_totals_def read_fails_def)
  have l: "net_metered_energy_wh (loadPersisted demo_virt init_state) = lit 100"
          "net_metered_energy_ret_wh (loadPersisted demo_virt init_state) = lit 40"
    by (simp_all add: loadPersisted_def demo_virt_def NET_METERED_ENERGY_KEY_def
          NET_METERED_ENERGY_RET_KEY_def Let_def lit_def)
  have d: "delta_energy_integrate_wh (run (start demo_virt (demo_totals 0 None)) demo_blind)
             = Fin (dbl (287729976193115 / 9007199254740992))"
    by (simp add: start_def loadPersisted_def readTotalsWh_def demo_blind_def sample_def
          integrationTick_def integratePower_def readTotalPowerW_def totalsTick_def
          demo_totals_def init_state_def Let_def ms_def whole_numbers
          at_7200th at_230_7200th at_230_7200th_sum)
  from failed_reference_reads
         [of "demo_totals 5000 None" demo_started "demo_totals 0 None" demo_blind demo_virt]
       a b l d
  show ?thesis by simp
qed

end
